theory Spec2Isabelle
  imports Main "HOL-Library.AList"
begin

section \<open>Runtime values, classes and exceptions\<close>

text \<open>
  A class is its name together with its base classes; \<open>issubclass\<close> walks the bases.
  Only plain classes are modelled (no metaclass that overrides the instance check).
\<close>

datatype pytype = Class string "pytype list"

definition object_t :: pytype where "object_t = Class ''object'' []"
definition type_t :: pytype where "type_t = Class ''type'' [object_t]"
definition int_t :: pytype where "int_t = Class ''int'' [object_t]"
definition bool_t :: pytype where "bool_t = Class ''bool'' [int_t]"
definition str_t :: pytype where "str_t = Class ''str'' [object_t]"
definition tuple_t :: pytype where "tuple_t = Class ''tuple'' [object_t]"
definition list_t :: pytype where "list_t = Class ''list'' [object_t]"
definition dict_t :: pytype where "dict_t = Class ''dict'' [object_t]"
definition NoneType_t :: pytype where "NoneType_t = Class ''NoneType'' [object_t]"
definition BaseException_t :: pytype where "BaseException_t = Class ''BaseException'' [object_t]"
definition Exception_t :: pytype where "Exception_t = Class ''Exception'' [BaseException_t]"
definition TypeError_t :: pytype where "TypeError_t = Class ''TypeError'' [Exception_t]"
definition RuntimeError_t :: pytype where "RuntimeError_t = Class ''RuntimeError'' [Exception_t]"

datatype pyval =
    VNone
  | VBool bool
  | VInt int
  | VStr string
  | VTuple "pyval list"
  | VList "pyval list"
  | VDict "(pyval \<times> pyval) list"
  | VType pytype
  | VObj pytype

fun type_of :: "pyval \<Rightarrow> pytype" where
  "type_of VNone = NoneType_t"
| "type_of (VBool b) = bool_t"
| "type_of (VInt i) = int_t"
| "type_of (VStr s) = str_t"
| "type_of (VTuple vs) = tuple_t"
| "type_of (VList vs) = list_t"
| "type_of (VDict d) = dict_t"
| "type_of (VType T) = type_t"
| "type_of (VObj C) = C"

text \<open>
  The text of an exception is kept structured: each constructor carries the values that
  the format string of the message is filled with.
\<close>

datatype message =
    ExpectedArgument string pyval pytype
  | ExpectedReturn pyval pytype
  | UnexpectedKeyword string
  | MultipleValues string
  | PositionalOnlyAsKeyword string
  | TooManyPositional nat
  | MissingArguments bool "string list"
  | IsinstanceArg2
  | ItemAssignment
  | Text string

datatype pyexc = PyExc (exc_class: pytype) (exc_message: message)

fun issubclass :: "pytype \<Rightarrow> pytype \<Rightarrow> bool" where
  "issubclass (Class n bs) T = (Class n bs = T \<or> list_ex (\<lambda>b. issubclass b T) bs)"

text \<open>
  \<open>isinstance(val, t)\<close>: \<open>t\<close> is a class or a tuple of such (searched left to right,
  stopping at the first match); anything else raises \<open>TypeError\<close>.
\<close>

fun isinstance :: "pyval \<Rightarrow> pyval \<Rightarrow> pyexc + bool"
  and isinstance_any :: "pyval \<Rightarrow> pyval list \<Rightarrow> pyexc + bool" where
  "isinstance v (VType T) = Inr (issubclass (type_of v) T)"
| "isinstance v (VTuple ts) = isinstance_any v ts"
| "isinstance v VNone = Inl (PyExc TypeError_t IsinstanceArg2)"
| "isinstance v (VBool b) = Inl (PyExc TypeError_t IsinstanceArg2)"
| "isinstance v (VInt i) = Inl (PyExc TypeError_t IsinstanceArg2)"
| "isinstance v (VStr s) = Inl (PyExc TypeError_t IsinstanceArg2)"
| "isinstance v (VList l) = Inl (PyExc TypeError_t IsinstanceArg2)"
| "isinstance v (VDict d) = Inl (PyExc TypeError_t IsinstanceArg2)"
| "isinstance v (VObj C) = Inl (PyExc TypeError_t IsinstanceArg2)"
| "isinstance_any v [] = Inr False"
| "isinstance_any v (t # ts) =
     (case isinstance v t of
        Inl e \<Rightarrow> Inl e
      | Inr True \<Rightarrow> Inr True
      | Inr False \<Rightarrow> isinstance_any v ts)"

section \<open>Objects in the store\<close>

text \<open>
  A dict with string keys is an association list in insertion order; \<open>AList.update\<close>
  is item assignment (the value is replaced in place, a new key goes to the end).
  Dict objects live in a heap; the \<open>__annotations__\<close> attribute of a function object
  holds the address of one. \<open>globals\<close> stands for everything else a body can change.
\<close>

type_synonym addr = nat
type_synonym pydict = "(string \<times> pyval) list"

record 'g pystate =
  heap :: "addr \<Rightarrow> pydict"
  fn_annotations :: "nat \<Rightarrow> addr"
  globals :: 'g

type_synonym 'g outcome = "(pyexc + pyval) \<times> 'g pystate"

text \<open>
  A function object: its identity, its signature as \<open>inspect.getfullargspec\<close> reports
  it, and its body, which runs on the bound local variables. \<open>f_args\<close> are the names
  of the parameters that take positional arguments, in order. The first
  \<open>f_posonlycount\<close> of them are positional-only (declared before \<open>/\<close>):
  \<open>getfullargspec\<close> lists them among \<open>args\<close> like the others, the interpreter
  keeps their number in the code object.
\<close>

record 'g pyfunction =
  f_id :: nat
  f_args :: "string list"
  f_posonlycount :: nat
  f_varargs :: "string option"
  f_varkw :: "string option"
  f_defaults :: "pyval list"
  f_kwonlyargs :: "string list"
  f_kwonlydefaults :: pydict
  f_body :: "(string \<rightharpoonup> pyval) \<Rightarrow> 'g pystate \<Rightarrow> 'g outcome"

definition has_key :: "pydict \<Rightarrow> string \<Rightarrow> bool" where
  "has_key d k = (map_of d k \<noteq> None)"

section \<open>Binding arguments\<close>

text \<open>
  \<open>inspect.getcallargs(func, *positional, **named)\<close> of the standard library,
  phase by phase: \<open>bind_initial\<close> is the dict before the loop over the keyword arguments
  (the positional arguments, then the \<open>*\<close> and \<open>**\<close> parameters). For a function object the interpreter guarantees that the parameter
  names are pairwise distinct and that there are no more defaults than parameters
  (\<open>wf_function\<close> below); the slices \<open>args[:num_args - num_defaults]\<close> are written
  with \<open>take\<close> and \<open>drop\<close> under that guarantee. \<open>getcallargs\<close> does not look at
  which parameters are positional-only. Bound methods are not modelled. The function's
  name, which the messages also print, is left out.
\<close>

definition bind_positional :: "string list \<Rightarrow> pyval list \<Rightarrow> pydict" where
  "bind_positional args positional =
     foldl (\<lambda>arg2value (arg, v). AList.update arg v arg2value) [] (zip args positional)"

fun bind_named :: "string list \<Rightarrow> string option \<Rightarrow> pydict \<Rightarrow> pydict \<Rightarrow> pyexc + pydict" where
  "bind_named possible_kwargs varkw [] arg2value = Inr arg2value"
| "bind_named possible_kwargs varkw ((kw, v) # named) arg2value =
     (if kw \<notin> set possible_kwargs then
        (case varkw of
           None \<Rightarrow> Inl (PyExc TypeError_t (UnexpectedKeyword kw))
         | Some vk \<Rightarrow>
             (case map_of arg2value vk of
                Some (VDict d) \<Rightarrow>
                  bind_named possible_kwargs varkw named
                    (AList.update vk (VDict (AList.update (VStr kw) v d)) arg2value)
              | _ \<Rightarrow> Inl (PyExc TypeError_t ItemAssignment)))
      else if has_key arg2value kw then Inl (PyExc TypeError_t (MultipleValues kw))
      else bind_named possible_kwargs varkw named (AList.update kw v arg2value))"

definition missing_arguments :: "string list \<Rightarrow> bool \<Rightarrow> pydict \<Rightarrow> pyexc" where
  "missing_arguments argnames pos vals =
     PyExc TypeError_t (MissingArguments pos (filter (\<lambda>name. \<not> has_key vals name) argnames))"

definition bind_defaults :: "string list \<Rightarrow> pyval list \<Rightarrow> nat \<Rightarrow> pydict \<Rightarrow> pyexc + pydict" where
  "bind_defaults args defaults num_pos arg2value =
     (let num_args = length args; num_defaults = length defaults in
      if num_pos < num_args then
        (let req = take (num_args - num_defaults) args in
         if list_ex (\<lambda>arg. \<not> has_key arg2value arg) req
         then Inl (missing_arguments req True arg2value)
         else Inr (foldl (\<lambda>a2v (arg, d). if has_key a2v arg then a2v else AList.update arg d a2v)
                     arg2value (zip (drop (num_args - num_defaults) args) defaults)))
      else Inr arg2value)"

fun bind_kwonly :: "string list \<Rightarrow> pydict \<Rightarrow> pydict \<Rightarrow> nat \<Rightarrow> pydict \<times> nat" where
  "bind_kwonly [] kwonlydefaults arg2value missing = (arg2value, missing)"
| "bind_kwonly (kwarg # kwonlyargs) kwonlydefaults arg2value missing =
     (if \<not> has_key arg2value kwarg then
        (case map_of kwonlydefaults kwarg of
           Some d \<Rightarrow> bind_kwonly kwonlyargs kwonlydefaults (AList.update kwarg d arg2value) missing
         | None \<Rightarrow> bind_kwonly kwonlyargs kwonlydefaults arg2value (missing + 1))
      else bind_kwonly kwonlyargs kwonlydefaults arg2value missing)"

definition bind_initial :: "'g pyfunction \<Rightarrow> pyval list \<Rightarrow> pydict" where
  "bind_initial func positional =
     (let args = f_args func;
          n = min (length positional) (length args);
          a1 = bind_positional (take n args) (take n positional);
          a2 = (case f_varargs func of None \<Rightarrow> a1
                | Some va \<Rightarrow> AList.update va (VTuple (drop n positional)) a1)
      in case f_varkw func of None \<Rightarrow> a2 | Some vk \<Rightarrow> AList.update vk (VDict []) a2)"

definition getcallargs :: "'g pyfunction \<Rightarrow> pyval list \<Rightarrow> pydict \<Rightarrow> pyexc + pydict" where
  "getcallargs func positional named =
     (let args = f_args func; varargs = f_varargs func; varkw = f_varkw func;
          num_pos = length positional; num_args = length args
      in case bind_named (args @ f_kwonlyargs func) varkw named (bind_initial func positional) of
           Inl e \<Rightarrow> Inl e
         | Inr a4 \<Rightarrow>
             if num_pos > num_args \<and> varargs = None
             then Inl (PyExc TypeError_t (TooManyPositional num_pos))
             else
               (case bind_defaults args (f_defaults func) num_pos a4 of
                  Inl e \<Rightarrow> Inl e
                | Inr a5 \<Rightarrow>
                    (case bind_kwonly (f_kwonlyargs func) (f_kwonlydefaults func) a5 0 of
                       (a6, missing) \<Rightarrow>
                         if missing \<noteq> 0
                         then Inl (missing_arguments (f_kwonlyargs func) False a6)
                         else Inr a6)))"

text \<open>
  The binding the interpreter itself does at a call \<open>function(*args, **kwargs)\<close>, after
  the language reference (section Calls): a slot for each formal parameter; the positional
  arguments fill the first slots, the surplus goes to the \<open>*\<close> parameter; each keyword
  argument fills the slot of its name, which must be empty and not that of a
  positional-only parameter, or goes to the \<open>**\<close> parameter; the slots still empty take
  their defaults.
\<close>

type_synonym slots = "(string \<times> pyval option) list"

definition positional_slots :: "string list \<Rightarrow> pyval list \<Rightarrow> slots" where
  "positional_slots names positional =
     zip names (map Some (take (length names) positional)
                @ replicate (length names - length positional) None)"

fun keyword_slot :: "string \<Rightarrow> pyval \<Rightarrow> slots \<Rightarrow> (pyexc + slots) option" where
  "keyword_slot kw v [] = None"
| "keyword_slot kw v ((name, x) # sl) =
     (if name = kw then
        (case x of
           Some _ \<Rightarrow> Some (Inl (PyExc TypeError_t (MultipleValues kw)))
         | None \<Rightarrow> Some (Inr ((name, Some v) # sl)))
      else
        (case keyword_slot kw v sl of
           None \<Rightarrow> None
         | Some (Inl e) \<Rightarrow> Some (Inl e)
         | Some (Inr sl') \<Rightarrow> Some (Inr ((name, x) # sl'))))"

fun keyword_slots ::
  "bool \<Rightarrow> string list \<Rightarrow> pydict \<Rightarrow> slots \<Rightarrow> pydict \<Rightarrow> pyexc + slots \<times> pydict" where
  "keyword_slots has_varkw posonly [] sl extra = Inr (sl, extra)"
| "keyword_slots has_varkw posonly ((kw, v) # named) sl extra =
     (case keyword_slot kw v sl of
        Some (Inl e) \<Rightarrow> Inl e
      | Some (Inr sl') \<Rightarrow> keyword_slots has_varkw posonly named sl' extra
      | None \<Rightarrow>
          if has_varkw then keyword_slots has_varkw posonly named sl (AList.update kw v extra)
          else if kw \<in> set posonly then Inl (PyExc TypeError_t (PositionalOnlyAsKeyword kw))
          else Inl (PyExc TypeError_t (UnexpectedKeyword kw)))"

definition default_table :: "'g pyfunction \<Rightarrow> pydict" where
  "default_table func =
     zip (drop (length (f_args func) - length (f_defaults func)) (f_args func)) (f_defaults func)
     @ f_kwonlydefaults func"

fun default_slots :: "pydict \<Rightarrow> slots \<Rightarrow> string list + pydict" where
  "default_slots defaults [] = Inr []"
| "default_slots defaults ((name, x) # sl) =
     (case x of
        Some v \<Rightarrow>
          (case default_slots defaults sl of
             Inl ms \<Rightarrow> Inl ms
           | Inr bound \<Rightarrow> Inr ((name, v) # bound))
      | None \<Rightarrow>
          (case map_of defaults name of
             Some d \<Rightarrow>
               (case default_slots defaults sl of
                  Inl ms \<Rightarrow> Inl ms
                | Inr bound \<Rightarrow> Inr ((name, d) # bound))
           | None \<Rightarrow>
               (case default_slots defaults sl of
                  Inl ms \<Rightarrow> Inl (name # ms)
                | Inr bound \<Rightarrow> Inl [name])))"

definition bind_call :: "'g pyfunction \<Rightarrow> pyval list \<Rightarrow> pydict \<Rightarrow> pyexc + pydict" where
  "bind_call func positional named =
     (let args = f_args func; po = f_posonlycount func;
          sl_po = positional_slots (take po args) positional;
          sl = positional_slots (drop po args) (drop po positional)
               @ map (\<lambda>name. (name, None)) (f_kwonlyargs func)
      in if length positional > length args \<and> f_varargs func = None
         then Inl (PyExc TypeError_t (TooManyPositional (length positional)))
         else
           (case keyword_slots (f_varkw func \<noteq> None) (take po args) named sl [] of
              Inl e \<Rightarrow> Inl e
            | Inr (sl', extra) \<Rightarrow>
                (case default_slots (default_table func) (sl_po @ sl') of
                   Inl ms \<Rightarrow>
                     (if list_ex (\<lambda>name. name \<in> set args) ms
                      then Inl (PyExc TypeError_t
                                  (MissingArguments True (filter (\<lambda>name. name \<in> set args) ms)))
                      else Inl (PyExc TypeError_t (MissingArguments False ms)))
                 | Inr bound \<Rightarrow>
                     Inr (bound
                          @ (case f_varargs func of None \<Rightarrow> []
                             | Some va \<Rightarrow> [(va, VTuple (drop (length args) positional))])
                          @ (case f_varkw func of None \<Rightarrow> []
                             | Some vk \<Rightarrow> [(vk, VDict (map (\<lambda>(k, v). (VStr k, v)) extra))])))))"

text \<open>Calling a function object: bind, then run the body on the local variables.\<close>

definition call :: "'g pyfunction \<Rightarrow> pyval list \<Rightarrow> pydict \<Rightarrow> 'g pystate \<Rightarrow> 'g outcome" where
  "call func positional named s =
     (case bind_call func positional named of
        Inl e \<Rightarrow> (Inl e, s)
      | Inr bound \<Rightarrow> f_body func (map_of bound) s)"

section \<open>The decorator\<close>

text \<open>
  \<open>optional_typecheck(function)\<close> reads \<open>function.__annotations__\<close> once: the closure
  keeps the reference to that dict object (its address) and the function: the fields
  \<open>c_annotations\<close> and \<open>c_function\<close> are the variables \<open>annotations\<close> and
  \<open>function\<close> of the source. \<open>functools.wraps\<close> only copies attributes to the
  wrapper and is left out.
\<close>

record 'g closure =
  c_function :: "'g pyfunction"
  c_annotations :: addr

definition optional_typecheck :: "'g pyfunction \<Rightarrow> 'g pystate \<Rightarrow> 'g closure" where
  "optional_typecheck func s =
     \<lparr> c_function = func, c_annotations = fn_annotations s (f_id func) \<rparr>"

text \<open>The loop \<open># check parameters\<close> over the items of the dict of bound arguments.\<close>

fun check_parameters :: "pydict \<Rightarrow> pydict \<Rightarrow> pyexc option" where
  "check_parameters ann [] = None"
| "check_parameters ann ((name, val) # items) =
     (case map_of ann name of
        None \<Rightarrow> check_parameters ann items
      | Some t \<Rightarrow>
          (case isinstance val t of
             Inl e \<Rightarrow> Some e
           | Inr False \<Rightarrow> Some (PyExc TypeError_t (ExpectedArgument name t (type_of val)))
           | Inr True \<Rightarrow> check_parameters ann items))"

text \<open>The part \<open># check return value\<close>.\<close>

definition check_return :: "pydict \<Rightarrow> pyval \<Rightarrow> pyexc option" where
  "check_return ann result =
     (case map_of ann ''return'' of
        None \<Rightarrow> None
      | Some t \<Rightarrow>
          (case isinstance result t of
             Inl e \<Rightarrow> Some e
           | Inr False \<Rightarrow> Some (PyExc TypeError_t (ExpectedReturn t (type_of result)))
           | Inr True \<Rightarrow> None))"

definition wrapper :: "'g closure \<Rightarrow> pyval list \<Rightarrow> pydict \<Rightarrow> 'g pystate \<Rightarrow> 'g outcome" where
  "wrapper c args kwargs s =
     (case getcallargs (c_function c) args kwargs of
        Inl e \<Rightarrow> (Inl e, s)
      | Inr callargs \<Rightarrow>
          (case check_parameters (heap s (c_annotations c)) callargs of
             Some e \<Rightarrow> (Inl e, s)
           | None \<Rightarrow>
               (case call (c_function c) args kwargs s of
                  (Inl e, s') \<Rightarrow> (Inl e, s')
                | (Inr result, s') \<Rightarrow>
                    (case check_return (heap s' (c_annotations c)) result of
                       Some e \<Rightarrow> (Inl e, s')
                     | None \<Rightarrow> (Inr result, s')))))"

section \<open>What the interpreter guarantees of a function object\<close>

definition parameter_names :: "'g pyfunction \<Rightarrow> string list" where
  "parameter_names func =
     f_args func @ f_kwonlyargs func
     @ (case f_varargs func of None \<Rightarrow> [] | Some va \<Rightarrow> [va])
     @ (case f_varkw func of None \<Rightarrow> [] | Some vk \<Rightarrow> [vk])"

definition wf_function :: "'g pyfunction \<Rightarrow> bool" where
  "wf_function func =
     (distinct (parameter_names func)
      \<and> length (f_defaults func) \<le> length (f_args func)
      \<and> f_posonlycount func \<le> length (f_args func)
      \<and> list_all (\<lambda>k. k \<in> set (f_kwonlyargs func)) (map fst (f_kwonlydefaults func)))"

section \<open>The failure conditions of binding, in the words of the specification\<close>

text \<open>
  Binding fails if there are extra positional arguments or extra keyword arguments beyond
  the signature, if an argument is bound more than once (positionally and by keyword), or
  if a required argument (positional or keyword-only, without default) is missing.
\<close>

definition binding_fails :: "'g pyfunction \<Rightarrow> pyval list \<Rightarrow> pydict \<Rightarrow> bool" where
  "binding_fails func positional named =
     (let args = f_args func; kwonly = f_kwonlyargs func;
          given = take (length positional) args;
          required = take (length args - length (f_defaults func)) args
      in (length positional > length args \<and> f_varargs func = None)
       \<or> (list_ex (\<lambda>kw. kw \<notin> set args \<and> kw \<notin> set kwonly) (map fst named)
            \<and> f_varkw func = None)
       \<or> list_ex (\<lambda>kw. kw \<in> set given) (map fst named)
       \<or> list_ex (\<lambda>p. p \<notin> set given \<and> \<not> has_key named p) required
       \<or> list_ex (\<lambda>p. \<not> has_key named p \<and> \<not> has_key (f_kwonlydefaults func) p) kwonly)"

section \<open>Operations on annotations after wrapping\<close>

text \<open>
  \<open>func.__annotations__[k] = t\<close> changes the dict object in place;
  \<open>func.__annotations__ = d\<close> makes the attribute refer to another dict object.
\<close>

definition annotations_setitem :: "'g pyfunction \<Rightarrow> string \<Rightarrow> pyval \<Rightarrow> 'g pystate \<Rightarrow> 'g pystate" where
  "annotations_setitem func k t s =
     s\<lparr> heap := (heap s)(fn_annotations s (f_id func) :=
                     AList.update k t (heap s (fn_annotations s (f_id func)))) \<rparr>"

definition annotations_rebind :: "'g pyfunction \<Rightarrow> addr \<Rightarrow> 'g pystate \<Rightarrow> 'g pystate" where
  "annotations_rebind func a s =
     s\<lparr> fn_annotations := (fn_annotations s)(f_id func := a) \<rparr>"

text \<open>
  A body whose result and effects do not depend on which dict object any function's
  \<open>__annotations__\<close> attribute refers to.
\<close>

definition body_ignores_attribute :: "'g pyfunction \<Rightarrow> bool" where
  "body_ignores_attribute func =
     (\<forall>loc s g.
        fst (f_body func loc (s\<lparr>fn_annotations := g\<rparr>)) = fst (f_body func loc s)
        \<and> snd (f_body func loc (s\<lparr>fn_annotations := g\<rparr>))
            = (snd (f_body func loc s))\<lparr>fn_annotations := g\<rparr>)"

section \<open>Example functions\<close>

definition simple_function ::
  "nat \<Rightarrow> string list \<Rightarrow> pyval list \<Rightarrow> ((string \<rightharpoonup> pyval) \<Rightarrow> nat pystate \<Rightarrow> nat outcome)
   \<Rightarrow> nat pyfunction" where
  "simple_function i args defaults body =
     \<lparr> f_id = i, f_args = args, f_posonlycount = 0, f_varargs = None, f_varkw = None,
       f_defaults = defaults,
       f_kwonlyargs = [], f_kwonlydefaults = [], f_body = body \<rparr>"

text \<open>Reading a local variable in a body.\<close>

definition load_local :: "(string \<rightharpoonup> pyval) \<Rightarrow> string \<Rightarrow> pyexc + pyval" where
  "load_local loc name =
     (case loc name of
        Some v \<Rightarrow> Inr v
      | None \<Rightarrow> Inl (PyExc RuntimeError_t (Text ''unbound'')))"

text \<open>
  From the test suite: \<open>def bar(x: int) -> int: return "badreturn"\<close>.
\<close>

definition bar :: "nat pyfunction" where
  "bar = simple_function 0 [''x''] [] (\<lambda>loc s. (Inr (VStr ''badreturn''), s))"

text \<open>
  \<open>def tick(x: int) -> int: global n; n += 1; return "badreturn"\<close>
\<close>

definition tick :: "nat pyfunction" where
  "tick = simple_function 0 [''x''] []
            (\<lambda>loc s. (Inr (VStr ''badreturn''), s\<lparr>globals := globals s + 1\<rparr>))"

text \<open>
  \<open>def boom(x: int) -> int: global n; n += 1; raise RuntimeError("boom")\<close>
\<close>

definition boom :: "nat pyfunction" where
  "boom = simple_function 0 [''x''] []
            (\<lambda>loc s. (Inl (PyExc RuntimeError_t (Text ''boom'')), s\<lparr>globals := globals s + 1\<rparr>))"

text \<open>
  \<open>def same(x: int) -> int: return x\<close>
\<close>

definition same :: "nat pyfunction" where
  "same = simple_function 0 [''x''] []
            (\<lambda>loc s. (load_local loc ''x'', s))"

text \<open>
  \<open>def pick(x: int, y, z: int): return y\<close>, with the signature of \<open>qux\<close> of the test suite.
\<close>

definition pick :: "nat pyfunction" where
  "pick = simple_function 1 [''x'', ''y'', ''z''] []
            (\<lambda>loc s. (load_local loc ''y'', s))"

text \<open>
  \<open>def dflt(x: int, y: int = "a"): global n; n += 1; return x\<close>
\<close>

definition dflt :: "nat pyfunction" where
  "dflt = simple_function 2 [''x'', ''y''] [VStr ''a'']
            (\<lambda>loc s. (load_local loc ''x'', s\<lparr>globals := globals s + 1\<rparr>))"

text \<open>
  \<open>def typeerr(x): raise TypeError("mine")\<close>
\<close>

definition typeerr :: "nat pyfunction" where
  "typeerr = simple_function 3 [''x''] []
            (\<lambda>loc s. (Inl (PyExc TypeError_t (Text ''mine'')), s))"

text \<open>
  \<open>def keep(x, /, **kw): return x\<close>
\<close>

definition keep :: "nat pyfunction" where
  "keep = \<lparr> f_id = 4, f_args = [''x''], f_posonlycount = 1, f_varargs = None,
           f_varkw = Some ''kw'', f_defaults = [], f_kwonlyargs = [], f_kwonlydefaults = [],
           f_body = (\<lambda>loc s. (load_local loc ''x'', s)) \<rparr>"

text \<open>
  \<open>def only(x, /): return x\<close>
\<close>

definition only :: "nat pyfunction" where
  "only = \<lparr> f_id = 5, f_args = [''x''], f_posonlycount = 1, f_varargs = None,
           f_varkw = None, f_defaults = [], f_kwonlyargs = [], f_kwonlydefaults = [],
           f_body = (\<lambda>loc s. (load_local loc ''x'', s)) \<rparr>"

text \<open>
  The store when the examples are decorated: function \<open>i\<close> has its annotations at
  address \<open>i\<close>.
\<close>

definition store0 :: "nat pystate" where
  "store0 =
     \<lparr> heap = (\<lambda>a. if a = 0 then [(''x'', VType int_t), (''return'', VType int_t)]
                   else if a = 1 then [(''x'', VType int_t), (''z'', VType int_t)]
                   else if a = 2 then [(''x'', VType int_t), (''y'', VType int_t)]
                   else []),
       fn_annotations = (\<lambda>i. i),
       globals = 0 \<rparr>"

text \<open>
  \<open>def mine(x: int) -> int: global n; n += 1; raise TypeError("mine")\<close>
\<close>

definition mine :: "nat pyfunction" where
  "mine = simple_function 0 [''x''] []
            (\<lambda>loc s. (Inl (PyExc TypeError_t (Text ''mine'')), s\<lparr>globals := globals s + 1\<rparr>))"

text \<open>
  \<open>def f3(x: int, y: int): global n; n += 1; return x\<close>
\<close>

definition f3 :: "nat pyfunction" where
  "f3 = simple_function 6 [''x'', ''y''] []
          (\<lambda>loc s. (load_local loc ''x'', s\<lparr>globals := globals s + 1\<rparr>))"

text \<open>
  \<open>def fwd(a: 'Node', x: int): global n; n += 1; return x\<close>, with an annotation that
  is a string and no class.
\<close>

definition fwd :: "nat pyfunction" where
  "fwd = simple_function 7 [''a'', ''x''] []
           (\<lambda>loc s. (load_local loc ''x'', s\<lparr>globals := globals s + 1\<rparr>))"

text \<open>
  \<open>def pod(x: int = "a", /, **kw): global n; n += 1; return x\<close>
\<close>

definition pod :: "nat pyfunction" where
  "pod = \<lparr> f_id = 8, f_args = [''x''], f_posonlycount = 1, f_varargs = None,
          f_varkw = Some ''kw'', f_defaults = [VStr ''a''], f_kwonlyargs = [],
          f_kwonlydefaults = [],
          f_body = (\<lambda>loc s. (load_local loc ''x'', s\<lparr>globals := globals s + 1\<rparr>)) \<rparr>"

text \<open>
  The store when \<open>f3\<close>, \<open>fwd\<close> and \<open>pod\<close> are decorated.
\<close>

definition store1 :: "nat pystate" where
  "store1 =
     \<lparr> heap = (\<lambda>a. if a = 6 then [(''x'', VType int_t), (''y'', VType int_t)]
                   else if a = 7 then [(''a'', VStr ''Node''), (''x'', VType int_t)]
                   else if a = 8 then [(''x'', VType int_t)]
                   else []),
       fn_annotations = (\<lambda>i. i),
       globals = 0 \<rparr>"

section \<open>Facts about the checks and the wrapper\<close>

lemma isinstance_error_class:
  "isinstance v t = Inl e \<Longrightarrow> exc_class e = TypeError_t"
  "isinstance_any v ts = Inl e \<Longrightarrow> exc_class e = TypeError_t"
  by (induction v t and v ts rule: isinstance_isinstance_any.induct)
     (auto split: sum.splits bool.splits)

lemma check_parameters_None_iff:
  "check_parameters ann items = None \<longleftrightarrow>
     (\<forall>(n, v) \<in> set items. \<forall>t. map_of ann n = Some t \<longrightarrow> isinstance v t = Inr True)"
  by (induction items) (auto split: option.splits sum.splits bool.splits)

lemma check_return_None_iff:
  "check_return ann result = None \<longleftrightarrow>
     (\<forall>t. map_of ann ''return'' = Some t \<longrightarrow> isinstance result t = Inr True)"
  by (auto simp: check_return_def split: option.splits sum.splits bool.splits)

lemma check_parameters_error_class:
  "check_parameters ann items = Some e \<Longrightarrow> exc_class e = TypeError_t"
  by (induction items) (auto split: option.splits sum.splits bool.splits simp: isinstance_error_class)

lemma check_return_error_class:
  "check_return ann result = Some e \<Longrightarrow> exc_class e = TypeError_t"
  by (auto simp: check_return_def split: option.splits sum.splits bool.splits simp: isinstance_error_class)

lemma wrapper_checked:
  assumes "getcallargs (c_function c) args kwargs = Inr callargs"
    and "check_parameters (heap s (c_annotations c)) callargs = None"
    and "call (c_function c) args kwargs s = (r, s')"
  shows "wrapper c args kwargs s =
           (case r of
              Inl e \<Rightarrow> (Inl e, s')
            | Inr result \<Rightarrow>
                (case check_return (heap s' (c_annotations c)) result of
                   Some e \<Rightarrow> (Inl e, s')
                 | None \<Rightarrow> (Inr result, s')))"
  using assms by (simp add: wrapper_def split: sum.splits)

lemma int_not_str: "\<not> issubclass str_t int_t"
  by (simp add: str_t_def int_t_def object_t_def)

lemma closure_simps [simp]:
  "c_function (optional_typecheck F s0) = F"
  "c_annotations (optional_typecheck F s0) = fn_annotations s0 (f_id F)"
  by (simp_all add: optional_typecheck_def)

lemma issubclass_refl [simp]: "issubclass T T"
  by (cases T) simp

lemma bool_is_int: "issubclass bool_t int_t" "bool_t \<noteq> int_t"
  by (simp_all add: bool_t_def int_t_def object_t_def)

lemma check_parameters_append:
  "check_parameters ann (xs @ ys) =
     (case check_parameters ann xs of Some e \<Rightarrow> Some e | None \<Rightarrow> check_parameters ann ys)"
  by (induction xs) (auto split: option.splits sum.splits bool.splits)

lemma getcallargs_body [simp]: "getcallargs (F\<lparr>f_body := b\<rparr>) args kwargs = getcallargs F args kwargs"
  by (simp add: getcallargs_def bind_initial_def cong: sum.case_cong prod.case_cong option.case_cong if_cong)

lemma call_rebound:
  assumes "body_ignores_attribute F"
  shows "call F args kwargs (s\<lparr>fn_annotations := g\<rparr>) =
           (fst (call F args kwargs s), (snd (call F args kwargs s))\<lparr>fn_annotations := g\<rparr>)"
  using assms
  by (auto simp: call_def body_ignores_attribute_def prod_eq_iff split: sum.splits)

lemma optional_typecheck_body [simp]:
  "c_function (optional_typecheck (F\<lparr>f_body := b\<rparr>) s0) = F\<lparr>f_body := b\<rparr>"
  "c_annotations (optional_typecheck (F\<lparr>f_body := b\<rparr>) s0) = fn_annotations s0 (f_id F)"
  by (simp_all add: optional_typecheck_def)

lemma wrapper_rejected:
  assumes "getcallargs (c_function c) args kwargs = Inr callargs"
    and "check_parameters (heap s (c_annotations c)) callargs = Some e"
  shows "wrapper c args kwargs s = (Inl e, s)"
  using assms by (simp add: wrapper_def)

lemma check_parameters_raises:
  assumes "(n, v) \<in> set items" and "map_of ann n = Some t" and "isinstance v t = Inr False"
  shows "\<exists>e. check_parameters ann items = Some e"
  using assms
  by (induction items) (auto split: option.splits sum.splits bool.splits)

lemma check_parameters_first:
  assumes "check_parameters ann items = Some e"
  shows "\<exists>pre m u t rest. items = pre @ (m, u) # rest
           \<and> check_parameters ann pre = None
           \<and> map_of ann m = Some t
           \<and> (isinstance u t = Inl e
              \<or> isinstance u t = Inr False
                \<and> e = PyExc TypeError_t (ExpectedArgument m t (type_of u)))"
  using assms
proof (induction items)
  case Nil
  then show ?case by simp
next
  case (Cons item items)
  obtain m u where item: "item = (m, u)" by (cases item)
  have step: "check_parameters ann items = Some e \<Longrightarrow> check_parameters ann [(m, u)] = None
     \<Longrightarrow> ?case"
  proof -
    assume a: "check_parameters ann items = Some e" and b: "check_parameters ann [(m, u)] = None"
    from Cons.IH [OF a] obtain pre m' u' t rest where
      p: "items = pre @ (m', u') # rest" "check_parameters ann pre = None"
         "map_of ann m' = Some t"
         "isinstance u' t = Inl e
              \<or> isinstance u' t = Inr False
                \<and> e = PyExc TypeError_t (ExpectedArgument m' t (type_of u'))"
      by blast
    have "check_parameters ann ((m, u) # pre) = None"
      using b p(2) check_parameters_append [of ann "[(m, u)]" pre] by simp
    moreover have "item # items = ((m, u) # pre) @ (m', u') # rest"
      using item p(1) by simp
    ultimately show ?case using p(3,4) by blast
  qed
  show ?case
  proof (cases "map_of ann m")
    case None
    with Cons.prems item have "check_parameters ann items = Some e" by simp
    moreover from None have "check_parameters ann [(m, u)] = None" by simp
    ultimately show ?thesis by (rule step)
  next
    case (Some t)
    show ?thesis
    proof (cases "isinstance u t")
      case (Inl e')
      with Cons.prems item Some have "e' = e" by simp
      with Inl Some item have "item # items = [] @ (m, u) # items
           \<and> check_parameters ann [] = None \<and> map_of ann m = Some t
           \<and> (isinstance u t = Inl e
              \<or> isinstance u t = Inr False
                \<and> e = PyExc TypeError_t (ExpectedArgument m t (type_of u)))"
        by simp
      then show ?thesis by blast
    next
      case (Inr b)
      show ?thesis
      proof (cases b)
        case True
        with Cons.prems item Some Inr have "check_parameters ann items = Some e" by simp
        moreover from True Some Inr have "check_parameters ann [(m, u)] = None" by simp
        ultimately show ?thesis by (rule step)
      next
        case False
        with Cons.prems item Some Inr
        have "e = PyExc TypeError_t (ExpectedArgument m t (type_of u))" by simp
        with False Inr Some item have "item # items = [] @ (m, u) # items
           \<and> check_parameters ann [] = None \<and> map_of ann m = Some t
           \<and> (isinstance u t = Inl e
              \<or> isinstance u t = Inr False
                \<and> e = PyExc TypeError_t (ExpectedArgument m t (type_of u)))"
          by simp
        then show ?thesis by blast
      qed
    qed
  qed
qed

lemma check_parameters_at:
  assumes "check_parameters ann pre = None" and "map_of ann n = Some t"
    and "isinstance v t = Inr False"
  shows "check_parameters ann (pre @ (n, v) # rest)
           = Some (PyExc TypeError_t (ExpectedArgument n t (type_of v)))"
  using assms by (simp add: check_parameters_append)

lemma check_parameters_passed:
  assumes "check_parameters ann pre = None" and "map_of ann n = Some t"
    and "isinstance v t = Inr False"
  shows "(n, v) \<notin> set pre"
proof
  assume "(n, v) \<in> set pre"
  with assms(1) have "\<forall>t. map_of ann n = Some t \<longrightarrow> isinstance v t = Inr True"
    unfolding check_parameters_None_iff by blast
  with assms(2,3) show False by simp
qed

text \<open>
  A bound value that is not an instance of its annotation: the wrapper raises the
  exception of the first item, in the order of the bound arguments, whose check does not
  pass, and the body does not run.
\<close>

lemma rejected_by_first:
  assumes "getcallargs F args kwargs = Inr callargs"
    and "(n, v) \<in> set callargs"
    and "map_of (heap s (fn_annotations s0 (f_id F))) n = Some (VType T)"
    and "\<not> issubclass (type_of v) T"
  shows "\<exists>e pre m u t rest.
           (\<forall>b. wrapper (optional_typecheck (F\<lparr>f_body := b\<rparr>) s0) args kwargs s = (Inl e, s))
         \<and> exc_class e = TypeError_t
         \<and> callargs = pre @ (m, u) # rest
         \<and> check_parameters (heap s (fn_annotations s0 (f_id F))) pre = None
         \<and> (n, v) \<in> set ((m, u) # rest)
         \<and> map_of (heap s (fn_annotations s0 (f_id F))) m = Some t
         \<and> (isinstance u t = Inl e
            \<or> isinstance u t = Inr False
              \<and> e = PyExc TypeError_t (ExpectedArgument m t (type_of u)))
         \<and> (\<forall>pre' rest'. callargs = pre' @ (n, v) # rest' \<longrightarrow>
               check_parameters (heap s (fn_annotations s0 (f_id F))) pre' = None \<longrightarrow>
               e = PyExc TypeError_t (ExpectedArgument n (VType T) (type_of v)))"
proof -
  let ?ann = "heap s (fn_annotations s0 (f_id F))"
  have bad: "isinstance v (VType T) = Inr False"
    using assms(4) by simp
  from check_parameters_raises [OF assms(2,3) bad]
  obtain e where e: "check_parameters ?ann callargs = Some e" ..
  have 1: "\<forall>b. wrapper (optional_typecheck (F\<lparr>f_body := b\<rparr>) s0) args kwargs s = (Inl e, s)"
  proof
    fix b
    show "wrapper (optional_typecheck (F\<lparr>f_body := b\<rparr>) s0) args kwargs s = (Inl e, s)"
      using wrapper_rejected [of "optional_typecheck (F\<lparr>f_body := b\<rparr>) s0" args kwargs callargs s e]
        assms(1) e by simp
  qed
  have 2: "exc_class e = TypeError_t"
    using e by (rule check_parameters_error_class)
  from check_parameters_first [OF e] obtain pre m u t rest where
    p: "callargs = pre @ (m, u) # rest" "check_parameters ?ann pre = None"
       "map_of ?ann m = Some t"
       "isinstance u t = Inl e
          \<or> isinstance u t = Inr False
            \<and> e = PyExc TypeError_t (ExpectedArgument m t (type_of u))"
    by blast
  have "(n, v) \<notin> set pre"
    by (rule check_parameters_passed [OF p(2) assms(3) bad])
  with assms(2) p(1) have 5: "(n, v) \<in> set ((m, u) # rest)" by auto
  have 8: "\<forall>pre' rest'. callargs = pre' @ (n, v) # rest' \<longrightarrow>
               check_parameters ?ann pre' = None \<longrightarrow>
               e = PyExc TypeError_t (ExpectedArgument n (VType T) (type_of v))"
  proof (intro allI impI)
    fix pre' rest'
    assume c: "callargs = pre' @ (n, v) # rest'" and d: "check_parameters ?ann pre' = None"
    from check_parameters_at [OF d assms(3) bad, of rest'] c e
    show "e = PyExc TypeError_t (ExpectedArgument n (VType T) (type_of v))" by simp
  qed
  from 1 2 p(1) p(2) 5 p(3) p(4) 8 show ?thesis
    by (intro exI [of _ e] exI [of _ pre] exI [of _ m] exI [of _ u] exI [of _ t]
        exI [of _ rest] conjI)
qed

section \<open>Facts about \<open>getcallargs\<close>\<close>

lemma has_key_iff: "has_key d k \<longleftrightarrow> k \<in> fst ` set d"
  by (simp add: has_key_def map_of_eq_None_iff)

lemma has_key_update [simp]: "has_key (AList.update k v d) k' \<longleftrightarrow> k' = k \<or> has_key d k'"
  by (auto simp: has_key_def update_conv')

lemma has_key_Nil [simp]: "\<not> has_key [] k"
  by (simp add: has_key_def)

lemma bind_positional_keys_aux:
  "has_key (foldl (\<lambda>arg2value (arg, v). AList.update arg v arg2value) m0 kvs) k
     \<longleftrightarrow> has_key m0 k \<or> k \<in> fst ` set kvs"
  by (induction kvs arbitrary: m0) (auto simp: rev_image_eqI)

lemma has_key_bind_positional:
  "has_key (bind_positional args positional) k \<longleftrightarrow> k \<in> set (take (length positional) args)"
proof -
  have "fst ` set (zip args positional) = set (map fst (zip args positional))"
    by simp
  also have "\<dots> = set (take (length positional) args)"
    by (simp only: map_fst_zip_take) (simp add: min_def)
  finally show ?thesis
    by (simp add: bind_positional_def bind_positional_keys_aux)
qed

lemma bind_named_error_class:
  "bind_named possible varkw named a = Inl e \<Longrightarrow> exc_class e = TypeError_t"
  by (induction named arbitrary: a)
     (auto split: if_splits option.splits pyval.splits)

lemma getcallargs_error_class:
  assumes "getcallargs F args kwargs = Inl e"
  shows "exc_class e = TypeError_t"
  using assms
  by (auto simp: getcallargs_def bind_initial_def Let_def bind_defaults_def missing_arguments_def
      split: sum.splits if_splits prod.splits dest: bind_named_error_class)

text \<open>What the loop over the keyword arguments does.\<close>

lemma bind_named_isl:
  assumes "distinct (map fst named)"
    and "\<forall>vk. varkw = Some vk \<longrightarrow> vk \<notin> set possible \<and> (\<exists>d. map_of a vk = Some (VDict d))"
  shows "isl (bind_named possible varkw named a) \<longleftrightarrow>
           (\<exists>kw \<in> fst ` set named.
              (kw \<notin> set possible \<and> varkw = None) \<or> (kw \<in> set possible \<and> has_key a kw))"
  using assms
proof (induction named arbitrary: a)
  case Nil
  then show ?case by simp
next
  case (Cons item named)
  obtain kw v where item: "item = (kw, v)" by (cases item)
  from Cons.prems(1) item have d: "distinct (map fst named)" and fresh: "kw \<notin> fst ` set named"
    by auto
  show ?case
  proof (cases "kw \<in> set possible")
    case True
    show ?thesis
    proof (cases "has_key a kw")
      case True
      with \<open>kw \<in> set possible\<close> item show ?thesis by auto
    next
      case False
      let ?a = "AList.update kw v a"
      have p: "\<forall>vk. varkw = Some vk \<longrightarrow> vk \<notin> set possible \<and> (\<exists>d. map_of ?a vk = Some (VDict d))"
        using Cons.prems(2) True by (auto simp: update_conv')
      have "isl (bind_named possible varkw (item # named) a)
              = isl (bind_named possible varkw named ?a)"
        using True False item by simp
      also have "\<dots> \<longleftrightarrow> (\<exists>kw' \<in> fst ` set named.
              (kw' \<notin> set possible \<and> varkw = None) \<or> (kw' \<in> set possible \<and> has_key ?a kw'))"
        by (rule Cons.IH [OF d p])
      also have "\<dots> \<longleftrightarrow> (\<exists>kw' \<in> fst ` set named.
              (kw' \<notin> set possible \<and> varkw = None) \<or> (kw' \<in> set possible \<and> has_key a kw'))"
        using fresh by auto
      finally show ?thesis
        using True False item by auto
    qed
  next
    case False
    show ?thesis
    proof (cases varkw)
      case None
      with False item show ?thesis by auto
    next
      case (Some vk)
      with Cons.prems(2) obtain dd where dd: "map_of a vk = Some (VDict dd)" and vk: "vk \<notin> set possible"
        by auto
      let ?a = "AList.update vk (VDict (AList.update (VStr kw) v dd)) a"
      have p: "\<forall>vk. varkw = Some vk \<longrightarrow> vk \<notin> set possible \<and> (\<exists>d. map_of ?a vk = Some (VDict d))"
        using Some vk by (auto simp: update_conv')
      have k: "has_key ?a kw' = has_key a kw'" for kw'
        using dd by (auto simp: has_key_def update_conv')
      have "isl (bind_named possible varkw (item # named) a)
              = isl (bind_named possible varkw named ?a)"
        using False Some dd item by simp
      also have "\<dots> \<longleftrightarrow> (\<exists>kw' \<in> fst ` set named.
              (kw' \<notin> set possible \<and> varkw = None) \<or> (kw' \<in> set possible \<and> has_key ?a kw'))"
        by (rule Cons.IH [OF d p])
      also have "\<dots> \<longleftrightarrow> (\<exists>kw' \<in> fst ` set named.
              (kw' \<notin> set possible \<and> varkw = None) \<or> (kw' \<in> set possible \<and> has_key a kw'))"
        by (simp only: k)
      also have "\<dots> \<longleftrightarrow> (\<exists>kw' \<in> fst ` set (item # named).
              (kw' \<notin> set possible \<and> varkw = None) \<or> (kw' \<in> set possible \<and> has_key a kw'))"
        using False Some item by simp
      finally show ?thesis .
    qed
  qed
qed

lemma bind_named_Inr:
  assumes "bind_named possible varkw named a = Inr a'"
  shows "(has_key a' k \<longleftrightarrow> has_key a k \<or> (k \<in> fst ` set named \<and> k \<in> set possible))
         \<and> (k \<notin> fst ` set named \<longrightarrow> varkw \<noteq> Some k \<longrightarrow> map_of a' k = map_of a k)"
  using assms
proof (induction named arbitrary: a)
  case Nil
  then show ?case by simp
next
  case (Cons item named)
  obtain kw v where item: "item = (kw, v)" by (cases item)
  show ?case
  proof (cases "kw \<in> set possible")
    case True
    with Cons.prems item have nk: "\<not> has_key a kw"
      and r: "bind_named possible varkw named (AList.update kw v a) = Inr a'"
      by (auto split: if_splits)
    from Cons.IH [OF r] True item show ?thesis
      by (auto simp: update_conv')
  next
    case False
    with Cons.prems item obtain vk dd where vk: "varkw = Some vk" "map_of a vk = Some (VDict dd)"
      and r: "bind_named possible varkw named
                (AList.update vk (VDict (AList.update (VStr kw) v dd)) a) = Inr a'"
      by (auto split: option.splits pyval.splits)
    have "has_key a vk" using vk(2) by (simp add: has_key_def)
    with Cons.IH [OF r] False item vk(1) show ?thesis
      by (auto simp: update_conv')
  qed
qed

lemma bind_defaults_isl:
  "isl (bind_defaults args defaults num_pos a) \<longleftrightarrow>
     num_pos < length args
     \<and> (\<exists>p \<in> set (take (length args - length defaults) args). \<not> has_key a p)"
  by (simp add: bind_defaults_def Let_def list_ex_iff)

lemma fill_defaults_map:
  "map_of (foldl (\<lambda>a2v (arg, d). if has_key a2v arg then a2v else AList.update arg d a2v) a kvs) x
     = (case map_of a x of Some v \<Rightarrow> Some v | None \<Rightarrow> map_of kvs x)"
proof (induction kvs arbitrary: a)
  case Nil
  then show ?case by (simp split: option.splits)
next
  case (Cons kv kvs)
  obtain k d where kv: "kv = (k, d)" by (cases kv)
  show ?case
  proof (cases "has_key a k")
    case True
    then obtain v where "map_of a k = Some v" by (auto simp: has_key_def)
    with True kv Cons.IH [of a] show ?thesis
      by (simp split: option.splits)
  next
    case False
    then have "map_of a k = None" by (simp add: has_key_def)
    with False kv Cons.IH [of "AList.update k d a"] show ?thesis
      by (simp add: update_conv' split: option.splits)
  qed
qed

lemma bind_defaults_Inr:
  assumes "bind_defaults args defaults num_pos a = Inr a'"
  shows "map_of a' x =
           (case map_of a x of
              Some v \<Rightarrow> Some v
            | None \<Rightarrow>
                if num_pos < length args
                then map_of (zip (drop (length args - length defaults) args) defaults) x
                else None)"
  using assms
  by (auto simp: bind_defaults_def Let_def fill_defaults_map split: if_splits option.splits)

lemma bind_kwonly_missing:
  "snd (bind_kwonly ks kd a m) \<noteq> 0 \<longleftrightarrow>
     m \<noteq> 0 \<or> (\<exists>k \<in> set ks. \<not> has_key a k \<and> map_of kd k = None)"
proof (induction ks arbitrary: a m)
  case Nil
  then show ?case by simp
next
  case (Cons k ks)
  show ?case
  proof (cases "has_key a k")
    case True
    with Cons.IH [of a m] show ?thesis by auto
  next
    case False
    show ?thesis
    proof (cases "map_of kd k")
      case None
      with False Cons.IH [of a "m + 1"] show ?thesis by auto
    next
      case (Some d)
      have "(\<not> has_key (AList.update k d a) k' \<and> map_of kd k' = None)
            \<longleftrightarrow> (\<not> has_key a k' \<and> map_of kd k' = None)" for k'
        using Some by auto
      then have "(\<exists>k' \<in> set ks. \<not> has_key (AList.update k d a) k' \<and> map_of kd k' = None)
            \<longleftrightarrow> (\<exists>k' \<in> set ks. \<not> has_key a k' \<and> map_of kd k' = None)"
        by blast
      with False Some Cons.IH [of "AList.update k d a" m] show ?thesis by auto
    qed
  qed
qed

lemma bind_kwonly_map:
  "map_of (fst (bind_kwonly ks kd a m)) x =
     (case map_of a x of
        Some v \<Rightarrow> Some v
      | None \<Rightarrow> if x \<in> set ks then map_of kd x else None)"
  by (induction ks arbitrary: a m)
     (auto simp: has_key_def update_conv' split: option.splits)

lemma wf_function_names:
  assumes "wf_function F"
  shows "distinct (f_args F @ f_kwonlyargs F)"
    and "f_varargs F = Some va \<Longrightarrow> va \<notin> set (f_args F @ f_kwonlyargs F)"
    and "f_varkw F = Some vk \<Longrightarrow> vk \<notin> set (f_args F @ f_kwonlyargs F)"
    and "length (f_defaults F) \<le> length (f_args F)"
    and "fst ` set (f_kwonlydefaults F) \<subseteq> set (f_kwonlyargs F)"
  using assms
  by (auto simp: wf_function_def parameter_names_def list_all_iff split: option.splits)

lemma has_key_bind_initial:
  assumes "wf_function F" and "k \<in> set (f_args F @ f_kwonlyargs F)"
  shows "has_key (bind_initial F positional) k \<longleftrightarrow> k \<in> set (take (length positional) (f_args F))"
proof -
  let ?n = "min (length positional) (length (f_args F))"
  have t: "take (length (take ?n positional)) (take ?n (f_args F)) = take (length positional) (f_args F)"
    by (simp add: min_def)
  have va: "f_varargs F = Some va \<Longrightarrow> k \<noteq> va" for va
    using wf_function_names(2) [OF assms(1)] assms(2) by auto
  have vk: "f_varkw F = Some vk \<Longrightarrow> k \<noteq> vk" for vk
    using wf_function_names(3) [OF assms(1)] assms(2) by auto
  have t2: "take ?n (f_args F) = take (length positional) (f_args F)"
    by (simp add: min_def)
  show ?thesis
    using va vk
    by (simp add: bind_initial_def Let_def has_key_bind_positional t t2 split: option.splits)
qed

lemma bind_initial_varkw:
  "f_varkw F = Some vk \<Longrightarrow> map_of (bind_initial F positional) vk = Some (VDict [])"
  by (simp add: bind_initial_def Let_def update_conv')

lemma getcallargs_isl:
  assumes wf: "wf_function F" and dist: "distinct (map fst named)"
  shows "isl (getcallargs F positional named) \<longleftrightarrow> binding_fails F positional named"
proof -
  let ?args = "f_args F" and ?kwonly = "f_kwonlyargs F"
  let ?possible = "f_args F @ f_kwonlyargs F"
  let ?a3 = "bind_initial F positional"
  let ?given = "take (length positional) ?args"
  let ?req = "take (length ?args - length (f_defaults F)) ?args"
  let ?too_many = "length positional > length ?args \<and> f_varargs F = None"
  let ?unexpected = "(\<exists>kw \<in> fst ` set named. kw \<notin> set ?args \<and> kw \<notin> set ?kwonly) \<and> f_varkw F = None"
  let ?multiple = "\<exists>kw \<in> fst ` set named. kw \<in> set ?given"
  let ?missing = "\<exists>p \<in> set ?req. p \<notin> set ?given \<and> p \<notin> fst ` set named"
  let ?missing_kw = "\<exists>p \<in> set ?kwonly. p \<notin> fst ` set named \<and> \<not> has_key (f_kwonlydefaults F) p"
  have fails: "binding_fails F positional named \<longleftrightarrow>
                 ?too_many \<or> ?unexpected \<or> ?multiple \<or> ?missing \<or> ?missing_kw"
    by (simp add: binding_fails_def Let_def list_ex_iff has_key_iff)
  have pre: "\<forall>vk. f_varkw F = Some vk \<longrightarrow>
               vk \<notin> set ?possible \<and> (\<exists>d. map_of ?a3 vk = Some (VDict d))"
    using wf_function_names(3) [OF wf] bind_initial_varkw by blast
  have given_sub: "set ?given \<subseteq> set ?possible"
    by (auto dest: in_set_takeD)
  have named: "isl (bind_named ?possible (f_varkw F) named ?a3) \<longleftrightarrow> ?unexpected \<or> ?multiple"
  proof -
    have "isl (bind_named ?possible (f_varkw F) named ?a3) \<longleftrightarrow>
            (\<exists>kw \<in> fst ` set named.
               (kw \<notin> set ?possible \<and> f_varkw F = None) \<or> (kw \<in> set ?possible \<and> has_key ?a3 kw))"
      by (rule bind_named_isl [OF dist pre])
    also have "\<dots> \<longleftrightarrow>
            (\<exists>kw \<in> fst ` set named.
               (kw \<notin> set ?possible \<and> f_varkw F = None) \<or> kw \<in> set ?given)"
      using has_key_bind_initial [OF wf] given_sub by blast
    also have "\<dots> \<longleftrightarrow> ?unexpected \<or> ?multiple"
      by auto
    finally show ?thesis .
  qed
  show ?thesis
  proof (cases "bind_named ?possible (f_varkw F) named ?a3")
    case (Inl e)
    then have "isl (getcallargs F positional named)"
      by (simp add: getcallargs_def Let_def)
    moreover from Inl named have "?unexpected \<or> ?multiple" by simp
    ultimately show ?thesis using fails by blast
  next
    case (Inr a4)
    with named have no: "\<not> ?unexpected" "\<not> ?multiple" by simp_all
    have k4: "has_key a4 k \<longleftrightarrow> k \<in> set ?given \<or> k \<in> fst ` set named"
      if "k \<in> set ?possible" for k
      using bind_named_Inr [OF Inr, of k] has_key_bind_initial [OF wf that] that by blast
    show ?thesis
    proof (cases ?too_many)
      case True
      with Inr have "isl (getcallargs F positional named)"
        by (simp add: getcallargs_def Let_def)
      with True fails show ?thesis by blast
    next
      case False
      have defaults: "isl (bind_defaults ?args (f_defaults F) (length positional) a4) \<longleftrightarrow> ?missing"
      proof -
        have req: "p \<in> set ?possible" if "p \<in> set ?req" for p
          using that by (auto dest: in_set_takeD)
        have "isl (bind_defaults ?args (f_defaults F) (length positional) a4) \<longleftrightarrow>
                length positional < length ?args \<and> (\<exists>p \<in> set ?req. \<not> has_key a4 p)"
          by (rule bind_defaults_isl)
        also have "\<dots> \<longleftrightarrow> length positional < length ?args \<and> ?missing"
          using k4 req by blast
        also have "\<dots> \<longleftrightarrow> ?missing"
        proof -
          have "p \<in> set ?given" if "\<not> length positional < length ?args" "p \<in> set ?req" for p
            using that by (auto dest: in_set_takeD)
          then show ?thesis by blast
        qed
        finally show ?thesis .
      qed
      show ?thesis
      proof (cases "bind_defaults ?args (f_defaults F) (length positional) a4")
        case (Inl e)
        with Inr False have "isl (getcallargs F positional named)"
          by (simp add: getcallargs_def Let_def)
        moreover from Inl defaults have ?missing by simp
        ultimately show ?thesis using fails by blast
      next
        case a5: (Inr a5)
        with defaults have nm: "\<not> ?missing" by simp
        have k5: "has_key a5 k \<longleftrightarrow> k \<in> fst ` set named" if "k \<in> set ?kwonly" for k
        proof -
          from wf_function_names(1) [OF wf] that have notarg: "k \<notin> set ?args" by auto
          then have "map_of (zip (drop (length ?args - length (f_defaults F)) ?args) (f_defaults F)) k = None"
            by (auto simp: map_of_eq_None_iff dest!: set_zip_leftD in_set_dropD)
          with bind_defaults_Inr [OF a5, of k]
          have "has_key a5 k \<longleftrightarrow> has_key a4 k"
            by (simp add: has_key_def split: option.splits)
          also have "\<dots> \<longleftrightarrow> k \<in> set ?given \<or> k \<in> fst ` set named"
            using k4 [of k] that by simp
          also have "\<dots> \<longleftrightarrow> k \<in> fst ` set named"
            using notarg by (auto dest: in_set_takeD)
          finally show ?thesis .
        qed
        have "snd (bind_kwonly ?kwonly (f_kwonlydefaults F) a5 0) \<noteq> 0 \<longleftrightarrow>
                (\<exists>k \<in> set ?kwonly. \<not> has_key a5 k \<and> map_of (f_kwonlydefaults F) k = None)"
          using bind_kwonly_missing [of ?kwonly "f_kwonlydefaults F" a5 0] by simp
        also have "\<dots> \<longleftrightarrow> ?missing_kw"
          using k5 by (auto simp: has_key_def)
        finally have kw: "snd (bind_kwonly ?kwonly (f_kwonlydefaults F) a5 0) \<noteq> 0 \<longleftrightarrow> ?missing_kw" .
        have "isl (getcallargs F positional named) \<longleftrightarrow>
                snd (bind_kwonly ?kwonly (f_kwonlydefaults F) a5 0) \<noteq> 0"
          using Inr False a5
          by (simp add: getcallargs_def Let_def split: prod.splits)
        with kw no nm False fails show ?thesis by blast
      qed
    qed
  qed
qed

section \<open>Facts about the binding of the interpreter\<close>

text \<open>The slots of the interpreter's binding.\<close>

lemma keyword_slot_None: "keyword_slot kw v sl = None \<longleftrightarrow> map_of sl kw = None"
  by (induction sl) (auto split: option.splits sum.splits)

lemma keyword_slot_Inl:
  "(\<exists>e. keyword_slot kw v sl = Some (Inl e)) \<longleftrightarrow> (\<exists>u. map_of sl kw = Some (Some u))"
  by (induction sl) (auto split: option.splits sum.splits)

lemma keyword_slot_Inr:
  assumes "keyword_slot kw v sl = Some (Inr sl')"
  shows "map_of sl kw = Some None"
    and "map_of sl' k = (if k = kw then Some (Some v) else map_of sl k)"
    and "map fst sl' = map fst sl"
  using assms
  by (induction sl arbitrary: sl'; auto split: option.splits sum.splits if_splits)+

lemma keyword_slots_isl:
  assumes "distinct (map fst named)"
  shows "isl (keyword_slots hv po named sl extra) \<longleftrightarrow>
           (\<exists>kw \<in> fst ` set named.
              (map_of sl kw = None \<and> \<not> hv) \<or> (\<exists>u. map_of sl kw = Some (Some u)))"
  using assms
proof (induction named arbitrary: sl extra)
  case Nil
  then show ?case by simp
next
  case (Cons item named)
  obtain kw v where item: "item = (kw, v)" by (cases item)
  from Cons.prems item have d: "distinct (map fst named)" and fresh: "kw \<notin> fst ` set named"
    by auto
  show ?case
  proof (cases "keyword_slot kw v sl")
    case None
    then have n: "map_of sl kw = None" by (simp add: keyword_slot_None)
    show ?thesis
    proof (cases hv)
      case True
      with None item n Cons.IH [OF d, of sl "AList.update kw v extra"] show ?thesis by simp
    next
      case False
      with None item n show ?thesis by auto
    qed
  next
    case (Some r)
    show ?thesis
    proof (cases r)
      case (Inl e)
      with Some keyword_slot_Inl [of kw v sl] have "\<exists>u. map_of sl kw = Some (Some u)" by blast
      with Some Inl item show ?thesis by auto
    next
      case (Inr sl')
      with Some have r: "keyword_slot kw v sl = Some (Inr sl')" by simp
      have same: "map_of sl' kw' = map_of sl kw'" if "kw' \<in> fst ` set named" for kw'
        using keyword_slot_Inr(2) [OF r, of kw'] that fresh by auto
      have "isl (keyword_slots hv po (item # named) sl extra) = isl (keyword_slots hv po named sl' extra)"
        using r item by simp
      also have "\<dots> \<longleftrightarrow> (\<exists>kw' \<in> fst ` set named.
              (map_of sl' kw' = None \<and> \<not> hv) \<or> (\<exists>u. map_of sl' kw' = Some (Some u)))"
        by (rule Cons.IH [OF d])
      also have "\<dots> \<longleftrightarrow> (\<exists>kw' \<in> fst ` set named.
              (map_of sl kw' = None \<and> \<not> hv) \<or> (\<exists>u. map_of sl kw' = Some (Some u)))"
        using same by auto
      also have "\<dots> \<longleftrightarrow> (\<exists>kw' \<in> fst ` set (item # named).
              (map_of sl kw' = None \<and> \<not> hv) \<or> (\<exists>u. map_of sl kw' = Some (Some u)))"
        using keyword_slot_Inr(1) [OF r] item by simp
      finally show ?thesis .
    qed
  qed
qed

lemma keyword_slots_Inr:
  assumes "keyword_slots hv po named sl extra = Inr (sl', extra')"
  shows "map fst sl' = map fst sl"
    and "map_of sl' k = Some None \<longleftrightarrow> map_of sl k = Some None \<and> k \<notin> fst ` set named"
  using assms
proof (induction named arbitrary: sl extra)
  case Nil
  { case 1 then show ?case by simp }
  { case 2 then show ?case by simp }
next
  case (Cons item named)
  obtain kw v where item: "item = (kw, v)" by (cases item)
  { case 1
    show ?case
    proof (cases "keyword_slot kw v sl")
      case None
      with 1 item have "keyword_slots hv po named sl (AList.update kw v extra) = Inr (sl', extra')"
        by (auto split: if_splits)
      then show ?thesis by (rule Cons.IH(1))
    next
      case (Some r)
      with 1 item obtain sl1 where r: "keyword_slot kw v sl = Some (Inr sl1)"
        and rest: "keyword_slots hv po named sl1 extra = Inr (sl', extra')"
        by (cases r) auto
      from Cons.IH(1) [OF rest] keyword_slot_Inr(3) [OF r] show ?thesis by simp
    qed }
  { case 2
    show ?case
    proof (cases "keyword_slot kw v sl")
      case None
      with 2 item have rest: "keyword_slots hv po named sl (AList.update kw v extra) = Inr (sl', extra')"
        by (auto split: if_splits)
      from None have "map_of sl kw = None" by (simp add: keyword_slot_None)
      with Cons.IH(2) [OF rest] item show ?thesis by auto
    next
      case (Some r)
      with 2 item obtain sl1 where r: "keyword_slot kw v sl = Some (Inr sl1)"
        and rest: "keyword_slots hv po named sl1 extra = Inr (sl', extra')"
        by (cases r) auto
      from Cons.IH(2) [OF rest] keyword_slot_Inr(1) [OF r] keyword_slot_Inr(2) [OF r, of k] item
      show ?thesis
        by (auto split: if_splits)
    qed }
qed

lemma default_slots_isl:
  "isl (default_slots defaults sl) \<longleftrightarrow>
     (\<exists>name. (name, None) \<in> set sl \<and> map_of defaults name = None)"
  by (induction sl) (auto split: option.splits sum.splits)

lemma positional_slots_alt:
  "positional_slots names positional =
     map (\<lambda>(n, v). (n, Some v)) (zip names positional)
     @ map (\<lambda>n. (n, None)) (drop (length positional) names)"
proof (induction names arbitrary: positional)
  case Nil
  then show ?case by (simp add: positional_slots_def)
next
  case (Cons n names)
  show ?case
  proof (cases positional)
    case Nil
    have "zip xs (replicate (length xs) None) = map (\<lambda>n. (n, None)) xs" for xs :: "string list"
      by (induction xs) simp_all
    from this [of "n # names"] Nil show ?thesis
      by (simp add: positional_slots_def)
  next
    case (Cons v vs)
    with Cons.IH [of vs] show ?thesis
      by (simp add: positional_slots_def)
  qed
qed

lemma map_of_filled:
  "map_of (map (\<lambda>(n, v). (n, Some v)) zs) k = map_option Some (map_of zs k)"
  by (induction zs) auto

lemma map_of_unfilled:
  "map_of (map (\<lambda>n. (n, None)) ns) k = (if k \<in> set ns then Some None else None)"
  by (induction ns) auto

lemma map_of_zip_None: "map_of (zip xs ys) k = None \<longleftrightarrow> k \<notin> set (take (length ys) xs)"
proof -
  have "fst ` set (zip xs ys) = set (map fst (zip xs ys))" by simp
  also have "\<dots> = set (take (length ys) xs)"
    by (simp only: map_fst_zip_take) (simp add: min_def)
  finally show ?thesis by (simp add: map_of_eq_None_iff)
qed

lemma initial_slots_lookup:
  "map_of (positional_slots args positional @ map (\<lambda>name. (name, None)) kwonly) k =
     (case map_of (zip args positional) k of
        Some u \<Rightarrow> Some (Some u)
      | None \<Rightarrow> if k \<in> set (args @ kwonly) then Some None else None)"
proof -
  let ?p = "length positional"
  have z: "map_of (zip args positional) k = None \<longleftrightarrow> k \<notin> set (take ?p args)"
    by (rule map_of_zip_None)
  have "set (take ?p args @ drop ?p args) = set args"
    by (simp only: append_take_drop_id)
  then have split: "set args = set (take ?p args) \<union> set (drop ?p args)"
    by (simp only: set_append)
  show ?thesis
  proof (cases "map_of (zip args positional) k")
    case None
    with z have "k \<notin> set (take ?p args)" by simp
    with split have "k \<in> set args \<longleftrightarrow> k \<in> set (drop ?p args)" by blast
    with None show ?thesis
      by (simp add: positional_slots_alt map_add_def map_of_filled map_of_unfilled)
  next
    case (Some u)
    then show ?thesis
      by (simp add: positional_slots_alt map_add_def map_of_filled map_of_unfilled)
  qed
qed

lemma initial_slots_names:
  "map fst (positional_slots args positional @ map (\<lambda>name. (name, None)) kwonly) = args @ kwonly"
proof -
  have "map fst (map (\<lambda>(n, v). (n, Some v)) (zip args positional)) = take (length positional) args"
    by (simp add: map_fst_zip_take min_def case_prod_beta comp_def)
  then show ?thesis
    by (simp add: positional_slots_alt comp_def)
qed

lemma initial_slots_filled:
  "(\<exists>u. map_of (positional_slots args positional @ map (\<lambda>name. (name, None)) kwonly) k
          = Some (Some u))
     \<longleftrightarrow> k \<in> set (take (length positional) args)"
  unfolding initial_slots_lookup
  using map_of_zip_None [of args positional k]
  by (cases "map_of (zip args positional) k") simp_all

lemma initial_slots_absent:
  "map_of (positional_slots args positional @ map (\<lambda>name. (name, None)) kwonly) k = None
     \<longleftrightarrow> k \<notin> set (args @ kwonly)"
proof (cases "map_of (zip args positional) k")
  case None
  then show ?thesis unfolding initial_slots_lookup by simp
next
  case (Some u)
  then have "k \<in> set (take (length positional) args)"
    using map_of_zip_None [of args positional k] by simp
  then have "k \<in> set args" by (rule in_set_takeD)
  with Some show ?thesis unfolding initial_slots_lookup by simp
qed

lemma initial_slots_empty:
  "map_of (positional_slots args positional @ map (\<lambda>name. (name, None)) kwonly) k = Some None
     \<longleftrightarrow> k \<notin> set (take (length positional) args) \<and> k \<in> set (args @ kwonly)"
  unfolding initial_slots_lookup
  using map_of_zip_None [of args positional k]
  by (cases "map_of (zip args positional) k") simp_all

lemma default_table_lookup:
  assumes wf: "wf_function F"
  shows "k \<in> set (f_args F) \<Longrightarrow>
           map_of (default_table F) k = None \<longleftrightarrow>
             k \<in> set (take (length (f_args F) - length (f_defaults F)) (f_args F))"
    and "k \<in> set (f_kwonlyargs F) \<Longrightarrow>
           map_of (default_table F) k = map_of (f_kwonlydefaults F) k"
proof -
  let ?args = "f_args F" and ?d = "f_defaults F"
  let ?n = "length ?args - length ?d"
  let ?z = "zip (drop ?n ?args) ?d"
  have len: "length ?d \<le> length ?args" by (rule wf_function_names(4) [OF wf])
  have dis: "distinct (?args @ f_kwonlyargs F)" by (rule wf_function_names(1) [OF wf])
  have dt: "map_of (default_table F) k =
              (case map_of ?z k of Some v \<Rightarrow> Some v | None \<Rightarrow> map_of (f_kwonlydefaults F) k)"
    by (simp add: default_table_def map_add_def split: option.splits)
  have z: "map_of ?z k = None \<longleftrightarrow> k \<notin> set (drop ?n ?args)"
    using len by (simp add: map_of_zip_None)
  {
    assume k: "k \<in> set ?args"
    with dis have "k \<notin> set (f_kwonlyargs F)" by auto
    with wf_function_names(5) [OF wf] have kd: "map_of (f_kwonlydefaults F) k = None"
      by (auto simp: map_of_eq_None_iff)
    have "distinct (take ?n ?args @ drop ?n ?args)" using dis by simp
    then have disj: "set (take ?n ?args) \<inter> set (drop ?n ?args) = {}"
      by (simp only: distinct_append)
    have "set (take ?n ?args @ drop ?n ?args) = set ?args"
      by (simp only: append_take_drop_id)
    then have "set ?args = set (take ?n ?args) \<union> set (drop ?n ?args)"
      by (simp only: set_append)
    with disj k have "k \<in> set (take ?n ?args) \<longleftrightarrow> k \<notin> set (drop ?n ?args)"
      by blast
    with z kd show "map_of (default_table F) k = None \<longleftrightarrow> k \<in> set (take ?n ?args)"
      by (cases "map_of ?z k") (auto simp: dt)
  }
  {
    assume k: "k \<in> set (f_kwonlyargs F)"
    with dis have "k \<notin> set ?args" by auto
    then have "k \<notin> set (drop ?n ?args)" by (auto dest: in_set_dropD)
    with z show "map_of (default_table F) k = map_of (f_kwonlydefaults F) k"
      by (simp add: dt)
  }
qed

lemma keyword_slot_error_class:
  "keyword_slot kw v sl = Some (Inl e) \<Longrightarrow> exc_class e = TypeError_t"
  by (induction sl) (auto split: option.splits sum.splits if_splits)

lemma keyword_slots_error_class:
  "keyword_slots hv po named sl extra = Inl e \<Longrightarrow> exc_class e = TypeError_t"
  by (induction named arbitrary: sl extra)
     (auto split: option.splits sum.splits if_splits dest: keyword_slot_error_class)

lemma bind_call_error_class:
  assumes "bind_call F args kwargs = Inl e"
  shows "exc_class e = TypeError_t"
  using assms
  by (auto simp: bind_call_def Let_def split: sum.splits if_splits prod.splits
      dest: keyword_slots_error_class)

lemma positional_slots_Nil [simp]: "positional_slots [] positional = []"
  by (simp add: positional_slots_def)

lemma bind_call_isl:
  assumes wf: "wf_function F" and dist: "distinct (map fst named)"
    and po: "f_posonlycount F = 0"
  shows "isl (bind_call F positional named) \<longleftrightarrow> binding_fails F positional named"
proof -
  let ?args = "f_args F" and ?kwonly = "f_kwonlyargs F"
  let ?sl = "positional_slots ?args positional @ map (\<lambda>name. (name, None)) ?kwonly"
  let ?given = "take (length positional) ?args"
  let ?req = "take (length ?args - length (f_defaults F)) ?args"
  let ?too_many = "length positional > length ?args \<and> f_varargs F = None"
  let ?unexpected = "(\<exists>kw \<in> fst ` set named. kw \<notin> set ?args \<and> kw \<notin> set ?kwonly) \<and> f_varkw F = None"
  let ?multiple = "\<exists>kw \<in> fst ` set named. kw \<in> set ?given"
  let ?missing = "\<exists>p \<in> set ?req. p \<notin> set ?given \<and> p \<notin> fst ` set named"
  let ?missing_kw = "\<exists>p \<in> set ?kwonly. p \<notin> fst ` set named \<and> \<not> has_key (f_kwonlydefaults F) p"
  have fails: "binding_fails F positional named \<longleftrightarrow>
                 ?too_many \<or> ?unexpected \<or> ?multiple \<or> ?missing \<or> ?missing_kw"
    by (simp add: binding_fails_def Let_def list_ex_iff has_key_iff)
  have dis: "distinct (?args @ ?kwonly)" by (rule wf_function_names(1) [OF wf])
  show ?thesis
  proof (cases ?too_many)
    case True
    then have "isl (bind_call F positional named)"
      by (simp add: bind_call_def Let_def po)
    with True fails show ?thesis by blast
  next
    case False
    have kw: "isl (keyword_slots (f_varkw F \<noteq> None) [] named ?sl []) \<longleftrightarrow> ?unexpected \<or> ?multiple"
    proof -
      have "isl (keyword_slots (f_varkw F \<noteq> None) [] named ?sl []) \<longleftrightarrow>
              (\<exists>kw \<in> fst ` set named.
                 (map_of ?sl kw = None \<and> \<not> f_varkw F \<noteq> None) \<or> (\<exists>u. map_of ?sl kw = Some (Some u)))"
        by (rule keyword_slots_isl [OF dist])
      also have "\<dots> \<longleftrightarrow>
              (\<exists>kw \<in> fst ` set named.
                 (kw \<notin> set (?args @ ?kwonly) \<and> f_varkw F = None) \<or> kw \<in> set ?given)"
        by (simp only: initial_slots_absent initial_slots_filled not_not)
      also have "\<dots> \<longleftrightarrow> ?unexpected \<or> ?multiple"
        by auto
      finally show ?thesis .
    qed
    show ?thesis
    proof (cases "keyword_slots (f_varkw F \<noteq> None) [] named ?sl []")
      case (Inl e)
      with False have "isl (bind_call F positional named)"
        by (simp add: bind_call_def Let_def po)
      moreover from Inl kw have "?unexpected \<or> ?multiple" by simp
      ultimately show ?thesis using fails by blast
    next
      case (Inr r)
      obtain sl' extra where r: "r = (sl', extra)" by (cases r)
      with Inr have ks: "keyword_slots (f_varkw F \<noteq> None) [] named ?sl [] = Inr (sl', extra)" by simp
      from Inr kw have no: "\<not> ?unexpected" "\<not> ?multiple" by simp_all
      have names: "map fst sl' = ?args @ ?kwonly"
        using keyword_slots_Inr(1) [OF ks] by (simp only: initial_slots_names)
      with dis have d': "distinct (map fst sl')" by simp
      have empty: "(name, None) \<in> set sl' \<longleftrightarrow>
                     name \<notin> set ?given \<and> name \<in> set (?args @ ?kwonly) \<and> name \<notin> fst ` set named"
        for name
      proof -
        have "(name, None) \<in> set sl' \<longleftrightarrow> map_of sl' name = Some None"
          using d' by simp
        also have "\<dots> \<longleftrightarrow> map_of ?sl name = Some None \<and> name \<notin> fst ` set named"
          by (rule keyword_slots_Inr(2) [OF ks])
        also have "\<dots> \<longleftrightarrow> (name \<notin> set ?given \<and> name \<in> set (?args @ ?kwonly))
                              \<and> name \<notin> fst ` set named"
          by (simp only: initial_slots_empty)
        finally show ?thesis by blast
      qed
      have given_args: "p \<in> set ?given \<Longrightarrow> p \<in> set ?args" for p
        by (rule in_set_takeD)
      have req_args: "p \<in> set ?req \<Longrightarrow> p \<in> set ?args" for p
        by (rule in_set_takeD)
      have "isl (default_slots (default_table F) sl') \<longleftrightarrow>
              (\<exists>name. (name, None) \<in> set sl' \<and> map_of (default_table F) name = None)"
        by (rule default_slots_isl)
      also have "\<dots> \<longleftrightarrow>
              (\<exists>name. name \<notin> set ?given \<and> name \<in> set (?args @ ?kwonly)
                      \<and> name \<notin> fst ` set named \<and> map_of (default_table F) name = None)"
        by (simp only: empty conj_assoc)
      also have "\<dots> \<longleftrightarrow> ?missing \<or> ?missing_kw"
      proof
        assume "\<exists>name. name \<notin> set ?given \<and> name \<in> set (?args @ ?kwonly)
                      \<and> name \<notin> fst ` set named \<and> map_of (default_table F) name = None"
        then obtain name where n: "name \<notin> set ?given" "name \<in> set (?args @ ?kwonly)"
            "name \<notin> fst ` set named" "map_of (default_table F) name = None"
          by blast
        show "?missing \<or> ?missing_kw"
        proof (cases "name \<in> set ?args")
          case True
          with default_table_lookup(1) [OF wf True] n(4) have "name \<in> set ?req" by simp
          with n(1,3) show ?thesis by blast
        next
          case False
          with n(2) have k: "name \<in> set ?kwonly" by simp
          with default_table_lookup(2) [OF wf k] n(4)
          have "\<not> has_key (f_kwonlydefaults F) name" by (simp add: has_key_def)
          with k n(3) show ?thesis by blast
        qed
      next
        assume "?missing \<or> ?missing_kw"
        then show "\<exists>name. name \<notin> set ?given \<and> name \<in> set (?args @ ?kwonly)
                      \<and> name \<notin> fst ` set named \<and> map_of (default_table F) name = None"
        proof
          assume ?missing
          then obtain p where p: "p \<in> set ?req" "p \<notin> set ?given" "p \<notin> fst ` set named"
            by blast
          from req_args [OF p(1)] have a: "p \<in> set ?args" .
          with default_table_lookup(1) [OF wf a] p(1)
          have "map_of (default_table F) p = None" by simp
          with p a show ?thesis by auto
        next
          assume ?missing_kw
          then obtain p where p: "p \<in> set ?kwonly" "p \<notin> fst ` set named"
              "\<not> has_key (f_kwonlydefaults F) p"
            by blast
          from dis p(1) have "p \<notin> set ?args" by auto
          with given_args have g: "p \<notin> set ?given" by blast
          from default_table_lookup(2) [OF wf p(1)] p(3)
          have "map_of (default_table F) p = None" by (simp add: has_key_def)
          with p g show ?thesis by auto
        qed
      qed
      finally have df: "isl (default_slots (default_table F) sl') \<longleftrightarrow> ?missing \<or> ?missing_kw" .
      have "isl (bind_call F positional named) \<longleftrightarrow> isl (default_slots (default_table F) sl')"
        using False ks
        by (simp add: bind_call_def Let_def po split: sum.splits)
      with df no False fails show ?thesis by blast
    qed
  qed
qed

lemma wrapper_unbound:
  assumes "getcallargs (c_function c) args kwargs = Inl e"
  shows "wrapper c args kwargs s = (Inl e, s)"
  using assms by (simp add: wrapper_def)

text \<open>
  For a function without positional-only parameters, and keyword arguments as a call
  passes them (pairwise distinct names), \<open>getcallargs\<close> in the wrapper fails exactly when
  the binding of the direct call fails, and that is exactly when the conditions the
  specification lists hold. The wrapper then raises the \<open>TypeError\<close> of \<open>getcallargs\<close>
  and leaves the state as it was, whatever the body is.
\<close>

lemma binding_fails_together:
  assumes "wf_function F" and "distinct (map fst kwargs)" and "f_posonlycount F = 0"
  shows "(isl (getcallargs F args kwargs) \<longleftrightarrow> isl (bind_call F args kwargs))
         \<and> (isl (getcallargs F args kwargs) \<longleftrightarrow> binding_fails F args kwargs)
         \<and> (\<forall>e. getcallargs F args kwargs = Inl e \<longrightarrow>
               exc_class e = TypeError_t
               \<and> (\<forall>b. wrapper (optional_typecheck (F\<lparr>f_body := b\<rparr>) s0) args kwargs s = (Inl e, s)))
         \<and> (\<forall>e. bind_call F args kwargs = Inl e \<longrightarrow>
               exc_class e = TypeError_t \<and> call F args kwargs s = (Inl e, s))"
proof (intro conjI allI impI)
  show "isl (getcallargs F args kwargs) \<longleftrightarrow> isl (bind_call F args kwargs)"
    by (simp only: getcallargs_isl [OF assms(1,2)] bind_call_isl [OF assms])
  show "isl (getcallargs F args kwargs) \<longleftrightarrow> binding_fails F args kwargs"
    by (rule getcallargs_isl [OF assms(1,2)])
next
  fix e assume "getcallargs F args kwargs = Inl e"
  then show "exc_class e = TypeError_t" by (rule getcallargs_error_class)
next
  fix e b assume e: "getcallargs F args kwargs = Inl e"
  show "wrapper (optional_typecheck (F\<lparr>f_body := b\<rparr>) s0) args kwargs s = (Inl e, s)"
    by (rule wrapper_unbound) (simp add: e)
next
  fix e assume "bind_call F args kwargs = Inl e"
  then show "exc_class e = TypeError_t" by (rule bind_call_error_class)
next
  fix e assume "bind_call F args kwargs = Inl e"
  then show "call F args kwargs s = (Inl e, s)" by (simp add: call_def)
qed

lemma getcallargs_Inr:
  assumes "getcallargs F positional named = Inr callargs"
  obtains a4 a5 where
    "bind_named (f_args F @ f_kwonlyargs F) (f_varkw F) named (bind_initial F positional) = Inr a4"
    "bind_defaults (f_args F) (f_defaults F) (length positional) a4 = Inr a5"
    "callargs = fst (bind_kwonly (f_kwonlyargs F) (f_kwonlydefaults F) a5 0)"
  using assms
  by (auto simp: getcallargs_def Let_def split: sum.splits if_splits prod.splits)

lemma getcallargs_default:
  assumes wf: "wf_function F"
    and g: "getcallargs F positional named = Inr callargs"
    and d: "map_of (default_table F) p = Some d"
    and np: "p \<notin> set (take (length positional) (f_args F))"
    and nk: "\<not> has_key named p"
  shows "map_of callargs p = Some d"
proof -
  let ?args = "f_args F" and ?kwonly = "f_kwonlyargs F"
  let ?n = "length ?args - length (f_defaults F)"
  let ?z = "zip (drop ?n ?args) (f_defaults F)"
  from g obtain a4 a5 where
    a4: "bind_named (?args @ ?kwonly) (f_varkw F) named (bind_initial F positional) = Inr a4"
    and a5: "bind_defaults ?args (f_defaults F) (length positional) a4 = Inr a5"
    and c: "callargs = fst (bind_kwonly ?kwonly (f_kwonlydefaults F) a5 0)"
    by (rule getcallargs_Inr)
  have dt: "map_of (default_table F) p =
              (case map_of ?z p of Some v \<Rightarrow> Some v | None \<Rightarrow> map_of (f_kwonlydefaults F) p)"
    by (simp add: default_table_def map_add_def split: option.splits)
  have zargs: "map_of ?z p \<noteq> None \<Longrightarrow> p \<in> set ?args"
    by (auto simp: map_of_eq_None_iff dest!: set_zip_leftD in_set_dropD)
  have kdk: "map_of (f_kwonlydefaults F) p \<noteq> None \<Longrightarrow> p \<in> set ?kwonly"
    using wf_function_names(5) [OF wf] by (auto simp: map_of_eq_None_iff)
  from d dt zargs kdk have param: "p \<in> set (?args @ ?kwonly)"
    by (cases "map_of ?z p") auto
  from nk have nn: "p \<notin> fst ` set named" by (simp add: has_key_iff)
  have "\<not> has_key (bind_initial F positional) p"
    using has_key_bind_initial [OF wf param] np by simp
  then have "map_of (bind_initial F positional) p = None" by (simp add: has_key_def)
  moreover have "f_varkw F \<noteq> Some p"
    using wf_function_names(3) [OF wf, of p] param by auto
  ultimately have m4: "map_of a4 p = None"
    using bind_named_Inr [OF a4, of p] nn by simp
  show ?thesis
  proof (cases "p \<in> set ?args")
    case True
    have less: "length positional < length ?args"
    proof (rule ccontr)
      assume "\<not> length positional < length ?args"
      then have "take (length positional) ?args = ?args" by simp
      with np True show False by simp
    qed
    from wf_function_names(1) [OF wf] True have "p \<notin> set ?kwonly" by auto
    with kdk have "map_of (f_kwonlydefaults F) p = None" by blast
    with d dt have "map_of ?z p = Some d" by (cases "map_of ?z p") simp_all
    with bind_defaults_Inr [OF a5, of p] m4 less have "map_of a5 p = Some d" by simp
    with bind_kwonly_map [of ?kwonly "f_kwonlydefaults F" a5 0 p] c show ?thesis by simp
  next
    case False
    with param have k: "p \<in> set ?kwonly" by simp
    from False zargs have z: "map_of ?z p = None" by blast
    with d dt have kd: "map_of (f_kwonlydefaults F) p = Some d" by simp
    from bind_defaults_Inr [OF a5, of p] m4 z have "map_of a5 p = None" by simp
    with bind_kwonly_map [of ?kwonly "f_kwonlydefaults F" a5 0 p] c k kd show ?thesis by simp
  qed
qed

section \<open>Facts about the examples\<close>

lemma tick_getcallargs: "getcallargs tick [VInt 1] [] = Inr [(''x'', VInt 1)]"
  by (simp add: getcallargs_def bind_initial_def tick_def simple_function_def bind_positional_def
      bind_defaults_def)

lemma bar_getcallargs: "getcallargs bar [VInt 1] [] = Inr [(''x'', VInt 1)]"
  by (simp add: getcallargs_def bind_initial_def bar_def simple_function_def bind_positional_def
      bind_defaults_def)

lemma same_getcallargs: "getcallargs same [v] [] = Inr [(''x'', v)]"
  by (simp add: getcallargs_def bind_initial_def same_def simple_function_def bind_positional_def
      bind_defaults_def)

lemma same_call: "call same [v] [] s = (Inr v, s)"
  by (simp add: call_def bind_call_def same_def simple_function_def positional_slots_def
      default_table_def load_local_def)

lemma bar_call: "call bar [v] [] s = (Inr (VStr ''badreturn''), s)"
  by (simp add: call_def bind_call_def bar_def simple_function_def positional_slots_def
      default_table_def)

lemma store0_same [simp]:
  "heap store0 (fn_annotations store0 (f_id same)) = [(''x'', VType int_t), (''return'', VType int_t)]"
  by (simp add: store0_def same_def simple_function_def)

lemma store0_bar [simp]:
  "heap store0 (fn_annotations store0 (f_id bar)) = [(''x'', VType int_t), (''return'', VType int_t)]"
  by (simp add: store0_def bar_def simple_function_def)

lemma pick_getcallargs:
  "getcallargs pick [a, b, c] [] = Inr [(''x'', a), (''y'', b), (''z'', c)]"
  by (simp add: getcallargs_def bind_initial_def pick_def simple_function_def bind_positional_def
      bind_defaults_def)

lemma pick_call: "call pick [a, b, c] [] s = (Inr b, s)"
  by (simp add: call_def bind_call_def pick_def simple_function_def positional_slots_def
      default_table_def load_local_def)

lemma store0_pick [simp]:
  "heap store0 (fn_annotations store0 (f_id pick)) = [(''x'', VType int_t), (''z'', VType int_t)]"
  by (simp add: store0_def pick_def simple_function_def)

lemma boom_getcallargs: "getcallargs boom [v] [] = Inr [(''x'', v)]"
  by (simp add: getcallargs_def bind_initial_def boom_def simple_function_def bind_positional_def
      bind_defaults_def)

lemma boom_call:
  "call boom [v] [] s = (Inl (PyExc RuntimeError_t (Text ''boom'')), s\<lparr>globals := globals s + 1\<rparr>)"
  by (simp add: call_def bind_call_def boom_def simple_function_def positional_slots_def
      default_table_def)

lemma store0_boom [simp]:
  "heap store0 (fn_annotations store0 (f_id boom)) = [(''x'', VType int_t), (''return'', VType int_t)]"
  by (simp add: store0_def boom_def simple_function_def)

lemma pick_wf: "wf_function pick"
  by (simp add: wf_function_def parameter_names_def pick_def simple_function_def)

lemma pick_unbound:
  "getcallargs pick [VInt 1] [] = Inl (PyExc TypeError_t (MissingArguments True [''y'', ''z'']))"
  by (simp add: getcallargs_def bind_initial_def pick_def simple_function_def bind_positional_def
      bind_defaults_def missing_arguments_def has_key_def)

lemma pick_call_unbound:
  "bind_call pick [VInt 1] [] = Inl (PyExc TypeError_t (MissingArguments True [''y'', ''z'']))"
  by (simp add: bind_call_def pick_def simple_function_def positional_slots_def
      default_table_def)

lemma keep_wf: "wf_function keep"
  by (simp add: wf_function_def parameter_names_def keep_def)

lemma only_wf: "wf_function only"
  by (simp add: wf_function_def parameter_names_def only_def)

lemma typeerr_getcallargs: "getcallargs typeerr [v] [] = Inr [(''x'', v)]"
  by (simp add: getcallargs_def bind_initial_def typeerr_def simple_function_def
      bind_positional_def bind_defaults_def)

lemma typeerr_call: "call typeerr [v] [] s = (Inl (PyExc TypeError_t (Text ''mine'')), s)"
  by (simp add: call_def bind_call_def typeerr_def simple_function_def positional_slots_def
      default_table_def)

lemma dflt_wf: "wf_function dflt"
  by (simp add: wf_function_def parameter_names_def dflt_def simple_function_def)

lemma dflt_getcallargs: "getcallargs dflt [v] [] = Inr [(''x'', v), (''y'', VStr ''a'')]"
  by (simp add: getcallargs_def bind_initial_def dflt_def simple_function_def
      bind_positional_def bind_defaults_def has_key_def)

lemma dflt_call:
  "call dflt [v] [] s = (Inr v, s\<lparr>globals := globals s + 1\<rparr>)"
  by (simp add: call_def bind_call_def dflt_def simple_function_def positional_slots_def
      default_table_def load_local_def)

lemma store0_dflt [simp]:
  "heap store0 (fn_annotations store0 (f_id dflt)) = [(''x'', VType int_t), (''y'', VType int_t)]"
  by (simp add: store0_def dflt_def simple_function_def)


lemma store1_f3 [simp]:
  "heap store1 (fn_annotations store1 (f_id f3)) = [(''x'', VType int_t), (''y'', VType int_t)]"
  by (simp add: store1_def f3_def simple_function_def)


lemma store1_fwd [simp]:
  "heap store1 (fn_annotations store1 (f_id fwd)) = [(''a'', VStr ''Node''), (''x'', VType int_t)]"
  by (simp add: store1_def fwd_def simple_function_def)

lemma pod_wf: "wf_function pod"
  by (simp add: wf_function_def parameter_names_def pod_def)

lemma pod_getcallargs:
  "getcallargs pod [] [(''x'', v)] = Inr [(''kw'', VDict []), (''x'', v)]"
  by (simp add: getcallargs_def bind_initial_def pod_def bind_positional_def
      bind_defaults_def has_key_def)

lemma pod_bind_call:
  "bind_call pod [] [(''x'', v)] = Inr [(''x'', VStr ''a''), (''kw'', VDict [(VStr ''x'', v)])]"
  by (simp add: bind_call_def pod_def positional_slots_def default_table_def)

lemma pod_call:
  "call pod [] [(''x'', v)] s = (Inr (VStr ''a''), s\<lparr>globals := globals s + 1\<rparr>)"
  by (simp add: call_def pod_bind_call) (simp add: pod_def load_local_def)

lemma store1_pod [simp]:
  "heap store1 (fn_annotations store1 (f_id pod)) = [(''x'', VType int_t)]"
  by (simp add: store1_def pod_def)

lemma dflt_unbound:
  "getcallargs dflt [] [] = Inl (PyExc TypeError_t (MissingArguments True [''x'']))"
  by (simp add: getcallargs_def bind_initial_def dflt_def simple_function_def bind_positional_def
      bind_defaults_def missing_arguments_def has_key_def)

lemma mine_getcallargs: "getcallargs mine [v] [] = Inr [(''x'', v)]"
  by (simp add: getcallargs_def bind_initial_def mine_def simple_function_def
      bind_positional_def bind_defaults_def)

lemma mine_call:
  "call mine [v] [] s = (Inl (PyExc TypeError_t (Text ''mine'')), s\<lparr>globals := globals s + 1\<rparr>)"
  by (simp add: call_def bind_call_def mine_def simple_function_def positional_slots_def
      default_table_def)

lemma store0_mine [simp]:
  "heap store0 (fn_annotations store0 (f_id mine)) = [(''x'', VType int_t), (''return'', VType int_t)]"
  by (simp add: store0_def mine_def simple_function_def)

lemma pick_mismatch:
  "wrapper (optional_typecheck pick store0) [VStr ''a'', VInt 1, VInt 2] [] store0
     = (Inl (PyExc TypeError_t (ExpectedArgument ''x'' (VType int_t) str_t)), store0)"
  by (simp add: wrapper_def pick_getcallargs int_not_str)

section \<open>The claims\<close>

text \<open>
  Claim C1, as stated, fails: in \<open>bar(1)\<close> of the test suite the bound value matches the
  declared parameter type, the direct call returns the string, and the wrapper raises
  because of the return annotation.
\<close>

theorem passthrough_counterexample:
  "getcallargs bar [VInt 1] [] = Inr [(''x'', VInt 1)]
   \<and> map_of (heap store0 (fn_annotations store0 (f_id bar))) ''x'' = Some (VType int_t)
   \<and> isinstance (VInt 1) (VType int_t) = Inr True
   \<and> call bar [VInt 1] [] store0 = (Inr (VStr ''badreturn''), store0)
   \<and> wrapper (optional_typecheck bar store0) [VInt 1] [] store0
        = (Inl (PyExc TypeError_t (ExpectedReturn (VType int_t) str_t)), store0)
   \<and> wrapper (optional_typecheck bar store0) [VInt 1] [] store0 \<noteq> call bar [VInt 1] [] store0"
  by (simp add: bar_getcallargs bar_call wrapper_def check_return_def int_not_str)

text \<open>
  Claim C1, amended. When the arguments bind, every bound value with an entry in the
  annotation table is an instance of it, and the value the body returns (if it returns one
  and the table then has an entry for \<open>return\<close>) is an instance of that entry, the
  wrapper gives what the direct call gives: the same result or exception of the body, and
  the same state.
\<close>

theorem passthrough_on_match:
  assumes "getcallargs F args kwargs = Inr callargs"
    and "\<forall>(n, v) \<in> set callargs. \<forall>t.
           map_of (heap s (fn_annotations s0 (f_id F))) n = Some t \<longrightarrow> isinstance v t = Inr True"
    and "call F args kwargs s = (r, s')"
    and "\<forall>result t. r = Inr result \<longrightarrow>
           map_of (heap s' (fn_annotations s0 (f_id F))) ''return'' = Some t \<longrightarrow>
           isinstance result t = Inr True"
  shows "wrapper (optional_typecheck F s0) args kwargs s = call F args kwargs s"
proof -
  let ?c = "optional_typecheck F s0"
  have p: "check_parameters (heap s (c_annotations ?c)) callargs = None"
    using assms(2) by (simp add: check_parameters_None_iff)
  show ?thesis
  proof (cases r)
    case (Inl e)
    with wrapper_checked [of ?c args kwargs callargs s r s'] assms(1,3) p
    show ?thesis by simp
  next
    case (Inr result)
    with assms(4) have "check_return (heap s' (c_annotations ?c)) result = None"
      by (simp add: check_return_None_iff)
    with wrapper_checked [of ?c args kwargs callargs s r s'] assms(1,3) p Inr
    show ?thesis by simp
  qed
qed

theorem passthrough_on_match_witness:
  "getcallargs same [VInt 1] [] = Inr [(''x'', VInt 1)]
   \<and> isinstance (VInt 1) (VType int_t) = Inr True
   \<and> call same [VInt 1] [] store0 = (Inr (VInt 1), store0)
   \<and> wrapper (optional_typecheck same store0) [VInt 1] [] store0 = call same [VInt 1] [] store0
   \<and> wrapper (optional_typecheck same store0) [VInt 1] [] store0 = (Inr (VInt 1), store0)"
proof -
  have h1: "getcallargs same [VInt 1] [] = Inr [(''x'', VInt 1)]"
    by (rule same_getcallargs)
  have h2: "\<forall>(n, v) \<in> set [(''x'', VInt 1)]. \<forall>t.
         map_of (heap store0 (fn_annotations store0 (f_id same))) n = Some t
         \<longrightarrow> isinstance v t = Inr True"
    by simp
  have h3: "call same [VInt 1] [] store0 = (Inr (VInt 1), store0)"
    by (rule same_call)
  have h4: "\<forall>result t. (Inr (VInt 1) :: pyexc + pyval) = Inr result \<longrightarrow>
         map_of (heap store0 (fn_annotations store0 (f_id same))) ''return'' = Some t \<longrightarrow>
         isinstance result t = Inr True"
    by simp
  from passthrough_on_match [OF h1 h2 h3 h4] h1 h3
  show ?thesis by simp
qed




text \<open>
  Claim C3. When the arguments bind and pass their checks, the body has run and returned
  a value, and the annotation table then holds a class for \<open>return\<close> of which the value is
  not an instance, the wrapper raises the \<open>TypeError\<close> that names the expected and the
  actual type of the result. The state it leaves is the one the body left: the effects of
  the body stay.
\<close>

theorem return_mismatch_after_body:
  assumes "getcallargs F args kwargs = Inr callargs"
    and "check_parameters (heap s (fn_annotations s0 (f_id F))) callargs = None"
    and "call F args kwargs s = (Inr result, s')"
    and "map_of (heap s' (fn_annotations s0 (f_id F))) ''return'' = Some (VType T)"
    and "\<not> issubclass (type_of result) T"
  shows "wrapper (optional_typecheck F s0) args kwargs s =
           (Inl (PyExc TypeError_t (ExpectedReturn (VType T) (type_of result))), s')"
proof -
  let ?c = "optional_typecheck F s0"
  have c: "c_function ?c = F" "c_annotations ?c = fn_annotations s0 (f_id F)"
    by (simp_all add: optional_typecheck_def)
  have "check_return (heap s' (c_annotations ?c)) result =
          Some (PyExc TypeError_t (ExpectedReturn (VType T) (type_of result)))"
    using assms(4,5) by (simp add: check_return_def c)
  with wrapper_checked [of ?c args kwargs callargs s "Inr result" s'] assms(1-3) c
  show ?thesis by simp
qed

theorem return_mismatch_after_body_witness:
  "getcallargs tick [VInt 1] [] = Inr [(''x'', VInt 1)]
   \<and> check_parameters (heap store0 (fn_annotations store0 (f_id tick))) [(''x'', VInt 1)] = None
   \<and> call tick [VInt 1] [] store0 = (Inr (VStr ''badreturn''), store0\<lparr>globals := 1\<rparr>)
   \<and> map_of (heap (store0\<lparr>globals := 1\<rparr>) (fn_annotations store0 (f_id tick))) ''return''
        = Some (VType int_t)
   \<and> \<not> issubclass (type_of (VStr ''badreturn'')) int_t
   \<and> wrapper (optional_typecheck tick store0) [VInt 1] [] store0
        = (Inl (PyExc TypeError_t (ExpectedReturn (VType int_t) str_t)), store0\<lparr>globals := 1\<rparr>)
   \<and> globals (snd (wrapper (optional_typecheck tick store0) [VInt 1] [] store0)) = 1
   \<and> globals store0 = 0"
proof -
  have h1: "getcallargs tick [VInt 1] [] = Inr [(''x'', VInt 1)]"
    by (rule tick_getcallargs)
  have h2: "check_parameters (heap store0 (fn_annotations store0 (f_id tick))) [(''x'', VInt 1)] = None"
    by (simp add: store0_def tick_def simple_function_def int_t_def)
  have h3: "call tick [VInt 1] [] store0 = (Inr (VStr ''badreturn''), store0\<lparr>globals := 1\<rparr>)"
    by (simp add: call_def bind_call_def tick_def simple_function_def positional_slots_def
        default_table_def store0_def)
  have h4: "map_of (heap (store0\<lparr>globals := 1\<rparr>) (fn_annotations store0 (f_id tick))) ''return''
        = Some (VType int_t)"
    by (simp add: store0_def tick_def simple_function_def)
  have h5: "\<not> issubclass (type_of (VStr ''badreturn'')) int_t"
    by (simp add: int_not_str)
  from return_mismatch_after_body [OF h1 h2 h3 h4 h5] h1 h2 h3 h4 h5
  show ?thesis by (simp add: store0_def)
qed

text \<open>
  Claim C4. A value whose class is a subclass of the declared class passes: the check of
  the parameters goes on as if the item were not there, and the check of the result
  raises nothing. The witness is \<open>True\<close>, of class \<open>bool\<close>, for a declared \<open>int\<close>.
\<close>

theorem subtype_accepted:
  assumes "issubclass (type_of v) T"
  shows "(map_of ann n = Some (VType T) \<longrightarrow>
            check_parameters ann (xs @ (n, v) # ys) = check_parameters ann (xs @ ys))
         \<and> (map_of ann ''return'' = Some (VType T) \<longrightarrow> check_return ann v = None)"
  using assms by (simp add: check_parameters_append check_return_def split: option.splits)

theorem subtype_accepted_witness:
  "issubclass (type_of (VBool True)) int_t
   \<and> type_of (VBool True) \<noteq> int_t
   \<and> map_of (heap store0 (fn_annotations store0 (f_id same))) ''x'' = Some (VType int_t)
   \<and> check_parameters (heap store0 (fn_annotations store0 (f_id same))) ([] @ (''x'', VBool True) # [])
       = check_parameters (heap store0 (fn_annotations store0 (f_id same))) ([] @ [])
   \<and> map_of (heap store0 (fn_annotations store0 (f_id same))) ''return'' = Some (VType int_t)
   \<and> check_return (heap store0 (fn_annotations store0 (f_id same))) (VBool True) = None
   \<and> wrapper (optional_typecheck same store0) [VBool True] [] store0 = (Inr (VBool True), store0)"
proof -
  have h: "issubclass (type_of (VBool True)) int_t"
    by (simp add: bool_is_int)
  have w: "wrapper (optional_typecheck same store0) [VBool True] [] store0
             = (Inr (VBool True), store0)"
    by (simp add: wrapper_def same_getcallargs same_call check_return_def bool_is_int)
  from subtype_accepted [OF h, of "heap store0 (fn_annotations store0 (f_id same))" "''x''" "[]" "[]"]
    h w bool_is_int(2)
  show ?thesis by simp
qed

text \<open>
  Claim C5. A bound name without an entry in the annotation table is passed over whatever
  its value, and without an entry for \<open>return\<close> the result is not checked; when no bound
  name and not \<open>return\<close> has an entry, the wrapper is the direct call.
\<close>

theorem unannotated_unchecked:
  "(map_of ann n = None \<longrightarrow>
      check_parameters ann (xs @ (n, v) # ys) = check_parameters ann (xs @ ys))
   \<and> (map_of ann ''return'' = None \<longrightarrow> check_return ann v = None)
   \<and> (getcallargs F args kwargs = Inr callargs
        \<and> (\<forall>(m, u) \<in> set callargs. map_of (heap s (fn_annotations s0 (f_id F))) m = None)
        \<and> map_of (heap (snd (call F args kwargs s)) (fn_annotations s0 (f_id F))) ''return'' = None
      \<longrightarrow> wrapper (optional_typecheck F s0) args kwargs s = call F args kwargs s)"
proof (intro conjI impI)
  assume "map_of ann n = None"
  then show "check_parameters ann (xs @ (n, v) # ys) = check_parameters ann (xs @ ys)"
    by (simp add: check_parameters_append split: option.splits)
next
  assume "map_of ann ''return'' = None"
  then show "check_return ann v = None"
    by (simp add: check_return_def)
next
  let ?c = "optional_typecheck F s0"
  assume a: "getcallargs F args kwargs = Inr callargs
        \<and> (\<forall>(m, u) \<in> set callargs. map_of (heap s (fn_annotations s0 (f_id F))) m = None)
        \<and> map_of (heap (snd (call F args kwargs s)) (fn_annotations s0 (f_id F))) ''return'' = None"
  then have p: "check_parameters (heap s (c_annotations ?c)) callargs = None"
    by (auto simp: check_parameters_None_iff)
  obtain r s' where rs: "call F args kwargs s = (r, s')"
    by (cases "call F args kwargs s")
  with a have "check_return (heap s' (c_annotations ?c)) result = None" for result
    by (simp add: check_return_def)
  with wrapper_checked [of ?c args kwargs callargs s r s'] a p rs
  show "wrapper ?c args kwargs s = call F args kwargs s"
    by (cases r) simp_all
qed

theorem unannotated_unchecked_witness:
  "map_of (heap store0 (fn_annotations store0 (f_id pick))) ''y'' = None
   \<and> check_parameters (heap store0 (fn_annotations store0 (f_id pick)))
        ([(''x'', VInt 1)] @ (''y'', VDict [(VStr ''a'', VInt 2)]) # [(''z'', VInt 3)])
      = check_parameters (heap store0 (fn_annotations store0 (f_id pick)))
        ([(''x'', VInt 1)] @ [(''z'', VInt 3)])
   \<and> map_of (heap store0 (fn_annotations store0 (f_id pick))) ''return'' = None
   \<and> check_return (heap store0 (fn_annotations store0 (f_id pick))) (VDict [(VStr ''a'', VInt 2)]) = None
   \<and> getcallargs typeerr [VNone] [] = Inr [(''x'', VNone)]
   \<and> map_of (heap store0 (fn_annotations store0 (f_id typeerr))) ''x'' = None
   \<and> map_of (heap (snd (call typeerr [VNone] [] store0)) (fn_annotations store0 (f_id typeerr))) ''return'' = None
   \<and> wrapper (optional_typecheck typeerr store0) [VNone] [] store0 = call typeerr [VNone] [] store0
   \<and> wrapper (optional_typecheck pick store0) [VInt 1, VDict [(VStr ''a'', VInt 2)], VInt 3] [] store0
        = (Inr (VDict [(VStr ''a'', VInt 2)]), store0)"
proof -
  let ?ann = "heap store0 (fn_annotations store0 (f_id pick))"
  let ?d = "VDict [(VStr ''a'', VInt 2)]"
  have h1: "map_of ?ann ''y'' = None" and h2: "map_of ?ann ''return'' = None"
    by simp_all
  have g: "getcallargs typeerr [VNone] [] = Inr [(''x'', VNone)]"
    by (simp add: getcallargs_def bind_initial_def typeerr_def simple_function_def bind_positional_def
      bind_defaults_def)
  have t: "heap store0 (fn_annotations store0 (f_id typeerr)) = []"
    by (simp add: store0_def typeerr_def simple_function_def)
  have c: "call typeerr [VNone] [] store0 = (Inl (PyExc TypeError_t (Text ''mine'')), store0)"
    by (simp add: call_def bind_call_def typeerr_def simple_function_def positional_slots_def
      default_table_def)
  have h3: "getcallargs typeerr [VNone] [] = Inr [(''x'', VNone)]
        \<and> (\<forall>(m, u) \<in> set [(''x'', VNone)]. map_of (heap store0 (fn_annotations store0 (f_id typeerr))) m = None)
        \<and> map_of (heap (snd (call typeerr [VNone] [] store0)) (fn_annotations store0 (f_id typeerr))) ''return'' = None"
    by (simp add: g t c)
  have w: "wrapper (optional_typecheck pick store0) [VInt 1, ?d, VInt 3] [] store0 = (Inr ?d, store0)"
    by (simp add: wrapper_def pick_getcallargs pick_call check_return_def)
  from unannotated_unchecked [of ?ann "''y''" "[(''x'', VInt 1)]" ?d "[(''z'', VInt 3)]"
      typeerr "[VNone]" "[]" "[(''x'', VNone)]" store0 store0]
    h1 h2 h3 w
  show ?thesis by simp
qed

text \<open>
  Claim C6. When the arguments bind and pass their checks and the body raises, the wrapper
  raises that very exception and leaves the state the body left.
\<close>

theorem own_error_unchanged:
  assumes "getcallargs F args kwargs = Inr callargs"
    and "check_parameters (heap s (fn_annotations s0 (f_id F))) callargs = None"
    and "call F args kwargs s = (Inl e, s')"
  shows "wrapper (optional_typecheck F s0) args kwargs s = (Inl e, s')"
  using wrapper_checked [of "optional_typecheck F s0" args kwargs callargs s "Inl e" s'] assms
  by simp

theorem own_error_unchanged_witness:
  "getcallargs boom [VInt 1] [] = Inr [(''x'', VInt 1)]
   \<and> check_parameters (heap store0 (fn_annotations store0 (f_id boom))) [(''x'', VInt 1)] = None
   \<and> call boom [VInt 1] [] store0
       = (Inl (PyExc RuntimeError_t (Text ''boom'')), store0\<lparr>globals := globals store0 + 1\<rparr>)
   \<and> wrapper (optional_typecheck boom store0) [VInt 1] [] store0
       = (Inl (PyExc RuntimeError_t (Text ''boom'')), store0\<lparr>globals := globals store0 + 1\<rparr>)"
proof -
  have h1: "getcallargs boom [VInt 1] [] = Inr [(''x'', VInt 1)]"
    by (rule boom_getcallargs)
  have h2: "check_parameters (heap store0 (fn_annotations store0 (f_id boom))) [(''x'', VInt 1)] = None"
    by simp
  have h3: "call boom [VInt 1] [] store0
       = (Inl (PyExc RuntimeError_t (Text ''boom'')), store0\<lparr>globals := globals store0 + 1\<rparr>)"
    by (rule boom_call)
  from own_error_unchanged [OF h1 h2 h3] h1 h2 h3 show ?thesis by simp
qed

text \<open>
  Claim C7, as stated, fails: the closure holds the dict object itself, not a copy of it.
  After \<open>same.__annotations__['x'] = str\<close> the wrapper made before rejects the call
  \<open>same(1)\<close> that it accepted.
\<close>

theorem snapshot_counterexample:
  "wrapper (optional_typecheck same store0) [VInt 1] [] store0 = (Inr (VInt 1), store0)
   \<and> wrapper (optional_typecheck same store0) [VInt 1] []
        (annotations_setitem same ''x'' (VType str_t) store0)
       = (Inl (PyExc TypeError_t (ExpectedArgument ''x'' (VType str_t) int_t)),
          annotations_setitem same ''x'' (VType str_t) store0)"
  by (simp add: wrapper_def same_getcallargs same_call check_return_def
      annotations_setitem_def str_t_def int_t_def object_t_def)

text \<open>
  Claim C7, amended. The wrapper keeps the reference to the annotation table that the
  function has when it is wrapped. Making the \<open>__annotations__\<close> attribute refer to another
  table afterwards changes no check of a later call: the wrapper gives the same result and
  the same state (up to that attribute), for a body that does not itself depend on the
  attribute.
\<close>

theorem rebinding_has_no_effect:
  assumes "body_ignores_attribute F"
  shows "wrapper (optional_typecheck F s0) args kwargs (annotations_rebind G a s) =
           (fst (wrapper (optional_typecheck F s0) args kwargs s),
            annotations_rebind G a (snd (wrapper (optional_typecheck F s0) args kwargs s)))"
proof -
  let ?g = "(fn_annotations s)(f_id G := a)"
  let ?c = "optional_typecheck F s0"
  have keep: "fn_annotations (snd (call F args kwargs s)) = fn_annotations s"
    using call_rebound [OF assms, where args = args and kwargs = kwargs and s = s and g = "fn_annotations s"]
    by (simp add: prod_eq_iff) (metis pystate.select_convs(2) pystate.surjective pystate.update_convs(2))
  have w: "wrapper ?c args kwargs (s\<lparr>fn_annotations := ?g\<rparr>) =
           (fst (wrapper ?c args kwargs s), (snd (wrapper ?c args kwargs s))\<lparr>fn_annotations := ?g\<rparr>)"
    by (simp add: wrapper_def call_rebound [OF assms] split: sum.splits option.splits prod.splits)
  have "fn_annotations (snd (wrapper ?c args kwargs s)) = fn_annotations s"
    using keep by (auto simp: wrapper_def split: sum.splits option.splits prod.splits)
  with w show ?thesis
    by (simp add: annotations_rebind_def)
qed

theorem rebinding_has_no_effect_witness:
  "body_ignores_attribute same
   \<and> wrapper (optional_typecheck same store0) [VStr ''a''] [] (annotations_rebind same 3 store0)
      = (fst (wrapper (optional_typecheck same store0) [VStr ''a''] [] store0),
         annotations_rebind same 3 (snd (wrapper (optional_typecheck same store0) [VStr ''a''] [] store0)))
   \<and> heap (annotations_rebind same 3 store0) (fn_annotations (annotations_rebind same 3 store0) (f_id same)) = []
   \<and> fst (wrapper (optional_typecheck same store0) [VStr ''a''] [] (annotations_rebind same 3 store0))
      = Inl (PyExc TypeError_t (ExpectedArgument ''x'' (VType int_t) str_t))"
proof -
  have h: "body_ignores_attribute same"
    by (simp add: body_ignores_attribute_def same_def simple_function_def)
  have t: "heap (annotations_rebind same 3 store0) (fn_annotations (annotations_rebind same 3 store0) (f_id same)) = []"
    by (simp add: annotations_rebind_def store0_def)
  have w: "fst (wrapper (optional_typecheck same store0) [VStr ''a''] [] store0)
      = Inl (PyExc TypeError_t (ExpectedArgument ''x'' (VType int_t) str_t))"
    by (simp add: wrapper_def same_getcallargs int_not_str)
  from rebinding_has_no_effect [OF h, of store0 "[VStr ''a'']" "[]" same 3 store0] h t w
  show ?thesis by simp
qed

text \<open>
  Claim C8 fails on a function with a positional-only parameter: \<open>getcallargs\<close> binds by
  the names \<open>getfullargspec\<close> reports and takes a positional-only name for one that a
  keyword may give. For \<open>keep(1, x=2)\<close> the direct call binds (\<open>x\<close> is \<open>1\<close>, the keyword
  goes to \<open>kw\<close>) and returns \<open>1\<close>, and the wrapper raises the \<open>TypeError\<close> of
  \<open>getcallargs\<close>. For \<open>only(x=1)\<close> the direct call fails to bind and \<open>getcallargs\<close>
  binds \<open>x\<close>.
\<close>

theorem binding_differs_positional_only:
  "wf_function keep
   \<and> bind_call keep [VInt 1] [(''x'', VInt 2)]
        = Inr [(''x'', VInt 1), (''kw'', VDict [(VStr ''x'', VInt 2)])]
   \<and> call keep [VInt 1] [(''x'', VInt 2)] store0 = (Inr (VInt 1), store0)
   \<and> getcallargs keep [VInt 1] [(''x'', VInt 2)] = Inl (PyExc TypeError_t (MultipleValues ''x''))
   \<and> wrapper (optional_typecheck keep store0) [VInt 1] [(''x'', VInt 2)] store0
        = (Inl (PyExc TypeError_t (MultipleValues ''x'')), store0)
   \<and> wf_function only
   \<and> bind_call only [] [(''x'', VInt 1)] = Inl (PyExc TypeError_t (PositionalOnlyAsKeyword ''x''))
   \<and> getcallargs only [] [(''x'', VInt 1)] = Inr [(''x'', VInt 1)]"
proof -
  have b: "bind_call keep [VInt 1] [(''x'', VInt 2)]
        = Inr [(''x'', VInt 1), (''kw'', VDict [(VStr ''x'', VInt 2)])]"
    by (simp add: bind_call_def keep_def positional_slots_def default_table_def)
  then have c: "call keep [VInt 1] [(''x'', VInt 2)] store0 = (Inr (VInt 1), store0)"
    by (simp add: call_def) (simp add: keep_def load_local_def)
  have g: "getcallargs keep [VInt 1] [(''x'', VInt 2)] = Inl (PyExc TypeError_t (MultipleValues ''x''))"
    by (simp add: getcallargs_def bind_initial_def keep_def bind_positional_def has_key_def)
  then have w: "wrapper (optional_typecheck keep store0) [VInt 1] [(''x'', VInt 2)] store0
        = (Inl (PyExc TypeError_t (MultipleValues ''x'')), store0)"
    by (simp add: wrapper_def)
  have b': "bind_call only [] [(''x'', VInt 1)] = Inl (PyExc TypeError_t (PositionalOnlyAsKeyword ''x''))"
    by (simp add: bind_call_def only_def positional_slots_def default_table_def)
  have g': "getcallargs only [] [(''x'', VInt 1)] = Inr [(''x'', VInt 1)]"
    by (simp add: getcallargs_def bind_initial_def only_def bind_positional_def has_key_def
        bind_defaults_def)
  from keep_wf only_wf b c g w b' g' show ?thesis
    by (intro conjI)
qed

text \<open>
  Claim C9. When the binding fails, the wrapper raises the exception of \<open>getcallargs\<close>,
  of class \<open>TypeError\<close>. When a bound value is not an instance of the class declared for its
  parameter, and when the value the body returns is not an instance of the class declared
  for \<open>return\<close>, the wrapper raises an exception of class \<open>TypeError\<close>. A \<open>TypeError\<close> that
  the body raises leaves the wrapper as it is. Conversely, an exception that leaves the
  wrapper has the class \<open>TypeError\<close> or is the one the direct call raises. So the class of
  the exception tells none of the four apart.
\<close>

theorem errors_share_class:
  "(\<forall>e. getcallargs F args kwargs = Inl e \<longrightarrow>
         wrapper (optional_typecheck F s0) args kwargs s = (Inl e, s)
         \<and> exc_class e = TypeError_t)
   \<and> (\<forall>callargs n v T.
         getcallargs F args kwargs = Inr callargs \<longrightarrow>
         (n, v) \<in> set callargs \<longrightarrow>
         map_of (heap s (fn_annotations s0 (f_id F))) n = Some (VType T) \<longrightarrow>
         \<not> issubclass (type_of v) T \<longrightarrow>
         (\<exists>e. wrapper (optional_typecheck F s0) args kwargs s = (Inl e, s)
              \<and> exc_class e = TypeError_t))
   \<and> (\<forall>callargs result s' T.
         getcallargs F args kwargs = Inr callargs \<longrightarrow>
         check_parameters (heap s (fn_annotations s0 (f_id F))) callargs = None \<longrightarrow>
         call F args kwargs s = (Inr result, s') \<longrightarrow>
         map_of (heap s' (fn_annotations s0 (f_id F))) ''return'' = Some (VType T) \<longrightarrow>
         \<not> issubclass (type_of result) T \<longrightarrow>
         (\<exists>e. wrapper (optional_typecheck F s0) args kwargs s = (Inl e, s')
              \<and> exc_class e = TypeError_t))
   \<and> (\<forall>callargs e s'.
         getcallargs F args kwargs = Inr callargs \<longrightarrow>
         check_parameters (heap s (fn_annotations s0 (f_id F))) callargs = None \<longrightarrow>
         call F args kwargs s = (Inl e, s') \<longrightarrow>
         exc_class e = TypeError_t \<longrightarrow>
         wrapper (optional_typecheck F s0) args kwargs s = (Inl e, s')
         \<and> exc_class e = TypeError_t)
   \<and> (\<forall>e s'. wrapper (optional_typecheck F s0) args kwargs s = (Inl e, s') \<longrightarrow>
         exc_class e = TypeError_t \<or> call F args kwargs s = (Inl e, s'))"
proof (intro conjI allI impI)
  fix e
  assume g: "getcallargs F args kwargs = Inl e"
  show "wrapper (optional_typecheck F s0) args kwargs s = (Inl e, s)"
    by (rule wrapper_unbound) (simp add: g)
  show "exc_class e = TypeError_t"
    using g by (rule getcallargs_error_class)
next
  fix callargs n v T
  let ?ann = "heap s (fn_annotations s0 (f_id F))"
  assume g: "getcallargs F args kwargs = Inr callargs" and m: "(n, v) \<in> set callargs"
    and a: "map_of ?ann n = Some (VType T)" and b: "\<not> issubclass (type_of v) T"
  from b have bad: "isinstance v (VType T) = Inr False" by simp
  from check_parameters_raises [OF m a bad]
  obtain e where e: "check_parameters ?ann callargs = Some e" ..
  have "wrapper (optional_typecheck F s0) args kwargs s = (Inl e, s)"
    using wrapper_rejected [of "optional_typecheck F s0" args kwargs callargs s e] g e by simp
  moreover have "exc_class e = TypeError_t"
    using e by (rule check_parameters_error_class)
  ultimately show "\<exists>e. wrapper (optional_typecheck F s0) args kwargs s = (Inl e, s)
              \<and> exc_class e = TypeError_t"
    by blast
next
  fix callargs result s' T
  let ?c = "optional_typecheck F s0"
  assume g: "getcallargs F args kwargs = Inr callargs"
    and p: "check_parameters (heap s (fn_annotations s0 (f_id F))) callargs = None"
    and c: "call F args kwargs s = (Inr result, s')"
    and a: "map_of (heap s' (fn_annotations s0 (f_id F))) ''return'' = Some (VType T)"
    and b: "\<not> issubclass (type_of result) T"
  have r: "check_return (heap s' (c_annotations ?c)) result
             = Some (PyExc TypeError_t (ExpectedReturn (VType T) (type_of result)))"
    using a b by (simp add: check_return_def)
  have "wrapper ?c args kwargs s
          = (Inl (PyExc TypeError_t (ExpectedReturn (VType T) (type_of result))), s')"
    using wrapper_checked [of ?c args kwargs callargs s "Inr result" s'] g p c r by simp
  then show "\<exists>e. wrapper (optional_typecheck F s0) args kwargs s = (Inl e, s')
              \<and> exc_class e = TypeError_t"
    by simp
next
  fix callargs e s'
  let ?c = "optional_typecheck F s0"
  assume g: "getcallargs F args kwargs = Inr callargs"
    and p: "check_parameters (heap s (fn_annotations s0 (f_id F))) callargs = None"
    and c: "call F args kwargs s = (Inl e, s')"
    and t: "exc_class e = TypeError_t"
  show "wrapper (optional_typecheck F s0) args kwargs s = (Inl e, s')"
    using wrapper_checked [of ?c args kwargs callargs s "Inl e" s'] g p c by simp
  show "exc_class e = TypeError_t" by (rule t)
next
  fix e4 s'
  let ?c = "optional_typecheck F s0"
  assume w: "wrapper (optional_typecheck F s0) args kwargs s = (Inl e4, s')"
  show "exc_class e4 = TypeError_t \<or> call F args kwargs s = (Inl e4, s')"
  proof (cases "getcallargs F args kwargs")
    case (Inl e)
    with w have "e4 = e" by (simp add: wrapper_def)
    with Inl show ?thesis by (simp add: getcallargs_error_class)
  next
    case (Inr callargs)
    show ?thesis
    proof (cases "check_parameters (heap s (c_annotations ?c)) callargs")
      case (Some e)
      with w Inr have "e4 = e" by (simp add: wrapper_def)
      with Some show ?thesis by (simp add: check_parameters_error_class)
    next
      case None
      obtain r t where rt: "call F args kwargs s = (r, t)"
        by (cases "call F args kwargs s")
      have g: "getcallargs (c_function ?c) args kwargs = Inr callargs"
        using Inr by simp
      have rt': "call (c_function ?c) args kwargs s = (r, t)"
        using rt by simp
      show ?thesis
      proof (cases r)
        case (Inl e)
        with wrapper_checked [OF g None rt'] w show ?thesis
          using rt by simp
      next
        case res: (Inr res)
        with wrapper_checked [OF g None rt'] w
        have "check_return (heap t (c_annotations ?c)) res = Some e4"
          by (simp split: option.splits)
        then show ?thesis by (simp add: check_return_error_class)
      qed
    qed
  qed
qed

theorem errors_share_class_witness:
  "wrapper (optional_typecheck pick store0) [VInt 1] [] store0
        = (Inl (PyExc TypeError_t (MissingArguments True [''y'', ''z''])), store0)
   \<and> wrapper (optional_typecheck pick store0) [VStr ''a'', VInt 1, VInt 2] [] store0
        = (Inl (PyExc TypeError_t (ExpectedArgument ''x'' (VType int_t) str_t)), store0)
   \<and> wrapper (optional_typecheck bar store0) [VInt 1] [] store0
        = (Inl (PyExc TypeError_t (ExpectedReturn (VType int_t) str_t)), store0)
   \<and> wrapper (optional_typecheck mine store0) [VInt 1] [] store0
        = (Inl (PyExc TypeError_t (Text ''mine'')), store0\<lparr>globals := globals store0 + 1\<rparr>)
   \<and> call mine [VInt 1] [] store0
        = (Inl (PyExc TypeError_t (Text ''mine'')), store0\<lparr>globals := globals store0 + 1\<rparr>)
   \<and> exc_class (PyExc TypeError_t (MissingArguments True [''y'', ''z''])) = TypeError_t
   \<and> exc_class (PyExc TypeError_t (ExpectedArgument ''x'' (VType int_t) str_t)) = TypeError_t
   \<and> exc_class (PyExc TypeError_t (ExpectedReturn (VType int_t) str_t)) = TypeError_t
   \<and> exc_class (PyExc TypeError_t (Text ''mine'')) = TypeError_t"
proof -
  let ?s1 = "store0\<lparr>globals := globals store0 + 1\<rparr>"
  have a: "heap ?s1 = heap store0" by simp
  have h1: "getcallargs pick [VInt 1] [] = Inl (PyExc TypeError_t (MissingArguments True [''y'', ''z'']))"
    by (rule pick_unbound)
  from errors_share_class [of pick "[VInt 1]" "[]" store0 store0] h1
  have w1: "wrapper (optional_typecheck pick store0) [VInt 1] [] store0
        = (Inl (PyExc TypeError_t (MissingArguments True [''y'', ''z''])), store0)"
    by blast
  have h2: "wrapper (optional_typecheck pick store0) [VStr ''a'', VInt 1, VInt 2] [] store0
        = (Inl (PyExc TypeError_t (ExpectedArgument ''x'' (VType int_t) str_t)), store0)"
    by (rule pick_mismatch)
  have g3: "getcallargs mine [VInt 1] [] = Inr [(''x'', VInt 1)]"
    by (rule mine_getcallargs)
  have p3: "check_parameters (heap store0 (fn_annotations store0 (f_id mine))) [(''x'', VInt 1)] = None"
    by simp
  have c3: "call mine [VInt 1] [] store0 = (Inl (PyExc TypeError_t (Text ''mine'')), ?s1)"
    by (rule mine_call)
  have t3: "exc_class (PyExc TypeError_t (Text ''mine'')) = TypeError_t" by simp
  from errors_share_class [of mine "[VInt 1]" "[]" store0 store0] g3 p3 c3 t3
  have w4: "wrapper (optional_typecheck mine store0) [VInt 1] [] store0
        = (Inl (PyExc TypeError_t (Text ''mine'')), ?s1)"
    by blast
  have w3: "wrapper (optional_typecheck bar store0) [VInt 1] [] store0
        = (Inl (PyExc TypeError_t (ExpectedReturn (VType int_t) str_t)), store0)"
    by (simp add: bar_getcallargs bar_call wrapper_def check_return_def int_not_str)
  from w1 h2 w3 w4 c3 show ?thesis
    by (intro conjI) simp_all
qed

text \<open>
  Claim C10, as stated, fails. The binding comes before the checks: \<open>dflt()\<close> omits
  \<open>y\<close>, whose default is no \<open>int\<close>, and ends in the exception of the binding (\<open>x\<close> is
  missing), not in a type mismatch. And the default of a positional-only parameter may go
  unchecked: \<open>pod(x=1)\<close> omits \<open>x\<close> (in the call the keyword goes to \<open>kw\<close> and \<open>x\<close>
  takes its default), but \<open>getcallargs\<close> binds the value of the keyword to \<open>x\<close>, as in
  claim C8; the check passes and the body runs with the default.
\<close>

theorem default_counterexample:
  "map_of (default_table dflt) ''y'' = Some (VStr ''a'')
   \<and> map_of (heap store0 (fn_annotations store0 (f_id dflt))) ''y'' = Some (VType int_t)
   \<and> isinstance (VStr ''a'') (VType int_t) = Inr False
   \<and> getcallargs dflt [] [] = Inl (PyExc TypeError_t (MissingArguments True [''x'']))
   \<and> wrapper (optional_typecheck dflt store0) [] [] store0
       = (Inl (PyExc TypeError_t (MissingArguments True [''x''])), store0)
   \<and> map_of (default_table pod) ''x'' = Some (VStr ''a'')
   \<and> map_of (heap store1 (fn_annotations store1 (f_id pod))) ''x'' = Some (VType int_t)
   \<and> bind_call pod [] [(''x'', VInt 1)]
       = Inr [(''x'', VStr ''a''), (''kw'', VDict [(VStr ''x'', VInt 1)])]
   \<and> getcallargs pod [] [(''x'', VInt 1)] = Inr [(''kw'', VDict []), (''x'', VInt 1)]
   \<and> wrapper (optional_typecheck pod store1) [] [(''x'', VInt 1)] store1
       = (Inr (VStr ''a''), store1\<lparr>globals := globals store1 + 1\<rparr>)"
proof -
  have 1: "map_of (default_table dflt) ''y'' = Some (VStr ''a'')"
    by (simp add: default_table_def dflt_def simple_function_def)
  have 2: "map_of (heap store0 (fn_annotations store0 (f_id dflt))) ''y'' = Some (VType int_t)"
    by simp
  have 3: "isinstance (VStr ''a'') (VType int_t) = Inr False"
    by (simp add: int_not_str)
  have 4: "getcallargs dflt [] [] = Inl (PyExc TypeError_t (MissingArguments True [''x'']))"
    by (rule dflt_unbound)
  have 5: "wrapper (optional_typecheck dflt store0) [] [] store0
       = (Inl (PyExc TypeError_t (MissingArguments True [''x''])), store0)"
    by (simp add: wrapper_def dflt_unbound)
  have 6: "map_of (default_table pod) ''x'' = Some (VStr ''a'')"
    by (simp add: default_table_def pod_def)
  have 7: "map_of (heap store1 (fn_annotations store1 (f_id pod))) ''x'' = Some (VType int_t)"
    by simp
  have 8: "bind_call pod [] [(''x'', VInt 1)]
       = Inr [(''x'', VStr ''a''), (''kw'', VDict [(VStr ''x'', VInt 1)])]"
    by (rule pod_bind_call)
  have 9: "getcallargs pod [] [(''x'', VInt 1)] = Inr [(''kw'', VDict []), (''x'', VInt 1)]"
    by (rule pod_getcallargs)
  have 10: "wrapper (optional_typecheck pod store1) [] [(''x'', VInt 1)] store1
       = (Inr (VStr ''a''), store1\<lparr>globals := globals store1 + 1\<rparr>)"
    by (simp add: wrapper_def pod_getcallargs pod_call check_return_def)
  from 1 2 3 4 5 6 7 8 9 10 show ?thesis
    by (intro conjI)
qed

text \<open>
  Claim C10, amended. For a function object as the interpreter builds it
  (\<open>wf_function\<close>): a parameter that has a default, and that the call gives neither by
  position nor by a keyword of its name, is bound to the default by \<open>getcallargs\<close> when
  the arguments bind, and the default is checked like any bound value. When the class
  declared for the parameter does not admit the default, every such call ends in a
  \<open>TypeError\<close> of the wrapper with the state as it was, whatever the body is: the body does
  not run. The exception is that of the binding if the arguments do not bind. Otherwise
  it comes from the first bound argument whose check does not pass, which is the
  parameter with the default or one bound before it; and it is the mismatch of the
  default (naming the parameter, the declared class and the class of the default)
  whenever every argument bound before the parameter passes its check.
\<close>

theorem default_is_checked:
  assumes "wf_function F"
    and "map_of (default_table F) p = Some d"
    and "p \<notin> set (take (length args) (f_args F))"
    and "\<not> has_key kwargs p"
    and "map_of (heap s (fn_annotations s0 (f_id F))) p = Some (VType T)"
    and "\<not> issubclass (type_of d) T"
  shows "\<exists>e. (\<forall>b. wrapper (optional_typecheck (F\<lparr>f_body := b\<rparr>) s0) args kwargs s = (Inl e, s))
           \<and> exc_class e = TypeError_t
           \<and> (getcallargs F args kwargs = Inl e
              \<or> (\<exists>callargs pre m u t rest.
                    getcallargs F args kwargs = Inr callargs
                  \<and> map_of callargs p = Some d
                  \<and> callargs = pre @ (m, u) # rest
                  \<and> check_parameters (heap s (fn_annotations s0 (f_id F))) pre = None
                  \<and> (p, d) \<in> set ((m, u) # rest)
                  \<and> map_of (heap s (fn_annotations s0 (f_id F))) m = Some t
                  \<and> (isinstance u t = Inl e
                     \<or> isinstance u t = Inr False
                       \<and> e = PyExc TypeError_t (ExpectedArgument m t (type_of u)))
                  \<and> (\<forall>pre' rest'. callargs = pre' @ (p, d) # rest' \<longrightarrow>
                        check_parameters (heap s (fn_annotations s0 (f_id F))) pre' = None \<longrightarrow>
                        e = PyExc TypeError_t (ExpectedArgument p (VType T) (type_of d)))))"
proof (cases "getcallargs F args kwargs")
  case (Inl e)
  have "\<forall>b. wrapper (optional_typecheck (F\<lparr>f_body := b\<rparr>) s0) args kwargs s = (Inl e, s)"
  proof
    fix b
    show "wrapper (optional_typecheck (F\<lparr>f_body := b\<rparr>) s0) args kwargs s = (Inl e, s)"
      by (rule wrapper_unbound) (simp add: Inl)
  qed
  moreover have "exc_class e = TypeError_t"
    using Inl by (rule getcallargs_error_class)
  ultimately show ?thesis using Inl by blast
next
  case (Inr callargs)
  let ?ann = "heap s (fn_annotations s0 (f_id F))"
  have bound: "map_of callargs p = Some d"
    by (rule getcallargs_default [OF assms(1) Inr assms(2,3,4)])
  then have mem: "(p, d) \<in> set callargs" by (rule map_of_SomeD)
  from rejected_by_first [OF Inr mem assms(5,6)]
  obtain e pre m u t rest where
    r: "\<forall>b. wrapper (optional_typecheck (F\<lparr>f_body := b\<rparr>) s0) args kwargs s = (Inl e, s)"
       "exc_class e = TypeError_t"
       "callargs = pre @ (m, u) # rest"
       "check_parameters ?ann pre = None"
       "(p, d) \<in> set ((m, u) # rest)"
       "map_of ?ann m = Some t"
       "isinstance u t = Inl e
            \<or> isinstance u t = Inr False
              \<and> e = PyExc TypeError_t (ExpectedArgument m t (type_of u))"
       "\<forall>pre' rest'. callargs = pre' @ (p, d) # rest' \<longrightarrow>
               check_parameters ?ann pre' = None \<longrightarrow>
               e = PyExc TypeError_t (ExpectedArgument p (VType T) (type_of d))"
    by (elim exE conjE)
  from Inr bound r(3-8)
  have "\<exists>callargs pre m u t rest.
                    getcallargs F args kwargs = Inr callargs
                  \<and> map_of callargs p = Some d
                  \<and> callargs = pre @ (m, u) # rest
                  \<and> check_parameters ?ann pre = None
                  \<and> (p, d) \<in> set ((m, u) # rest)
                  \<and> map_of ?ann m = Some t
                  \<and> (isinstance u t = Inl e
                     \<or> isinstance u t = Inr False
                       \<and> e = PyExc TypeError_t (ExpectedArgument m t (type_of u)))
                  \<and> (\<forall>pre' rest'. callargs = pre' @ (p, d) # rest' \<longrightarrow>
                        check_parameters ?ann pre' = None \<longrightarrow>
                        e = PyExc TypeError_t (ExpectedArgument p (VType T) (type_of d)))"
    by (intro exI [of _ callargs] exI [of _ pre] exI [of _ m] exI [of _ u] exI [of _ t]
        exI [of _ rest] conjI)
  with r(1,2) show ?thesis
    by (intro exI [of _ e] conjI disjI2)
qed

theorem default_is_checked_witness:
  "wf_function dflt
   \<and> map_of (default_table dflt) ''y'' = Some (VStr ''a'')
   \<and> ''y'' \<notin> set (take (length [VInt 1]) (f_args dflt))
   \<and> \<not> has_key [] ''y''
   \<and> map_of (heap store0 (fn_annotations store0 (f_id dflt))) ''y'' = Some (VType int_t)
   \<and> \<not> issubclass (type_of (VStr ''a'')) int_t
   \<and> getcallargs dflt [VInt 1] [] = Inr [(''x'', VInt 1), (''y'', VStr ''a'')]
   \<and> check_parameters (heap store0 (fn_annotations store0 (f_id dflt))) [(''x'', VInt 1)] = None
   \<and> (\<forall>b. wrapper (optional_typecheck (dflt\<lparr>f_body := b\<rparr>) store0) [VInt 1] [] store0
          = (Inl (PyExc TypeError_t (ExpectedArgument ''y'' (VType int_t) str_t)), store0))
   \<and> call dflt [VInt 1] [] store0 = (Inr (VInt 1), store0\<lparr>globals := globals store0 + 1\<rparr>)"
proof -
  let ?ann = "heap store0 (fn_annotations store0 (f_id dflt))"
  let ?items = "[(''x'', VInt 1), (''y'', VStr ''a'')]"
  have h1: "wf_function dflt" by (rule dflt_wf)
  have h2: "map_of (default_table dflt) ''y'' = Some (VStr ''a'')"
    by (simp add: default_table_def dflt_def simple_function_def)
  have h3: "''y'' \<notin> set (take (length [VInt 1]) (f_args dflt))"
    by (simp add: dflt_def simple_function_def)
  have h4: "\<not> has_key [] ''y''" by (simp add: has_key_def)
  have h5: "map_of ?ann ''y'' = Some (VType int_t)" by simp
  have h6: "\<not> issubclass (type_of (VStr ''a'')) int_t" by (simp add: int_not_str)
  have g: "getcallargs dflt [VInt 1] [] = Inr ?items" by (rule dflt_getcallargs)
  have k: "check_parameters ?ann [(''x'', VInt 1)] = None" by simp
  from default_is_checked [OF h1 h2 h3 h4 h5 h6]
  obtain e where e1: "\<forall>b. wrapper (optional_typecheck (dflt\<lparr>f_body := b\<rparr>) store0)
                        [VInt 1] [] store0 = (Inl e, store0)"
    and e3: "getcallargs dflt [VInt 1] [] = Inl e
              \<or> (\<exists>callargs pre m u t rest.
                    getcallargs dflt [VInt 1] [] = Inr callargs
                  \<and> map_of callargs ''y'' = Some (VStr ''a'')
                  \<and> callargs = pre @ (m, u) # rest
                  \<and> check_parameters ?ann pre = None
                  \<and> (''y'', VStr ''a'') \<in> set ((m, u) # rest)
                  \<and> map_of ?ann m = Some t
                  \<and> (isinstance u t = Inl e
                     \<or> isinstance u t = Inr False
                       \<and> e = PyExc TypeError_t (ExpectedArgument m t (type_of u)))
                  \<and> (\<forall>pre' rest'. callargs = pre' @ (''y'', VStr ''a'') # rest' \<longrightarrow>
                        check_parameters ?ann pre' = None \<longrightarrow>
                        e = PyExc TypeError_t
                              (ExpectedArgument ''y'' (VType int_t) (type_of (VStr ''a'')))))"
    by (elim exE conjE)
  from e3 g have "\<forall>pre' rest'. ?items = pre' @ (''y'', VStr ''a'') # rest' \<longrightarrow>
                        check_parameters ?ann pre' = None \<longrightarrow>
                        e = PyExc TypeError_t
                              (ExpectedArgument ''y'' (VType int_t) (type_of (VStr ''a'')))"
    by auto
  then have "?items = [(''x'', VInt 1)] @ (''y'', VStr ''a'') # [] \<longrightarrow>
                        check_parameters ?ann [(''x'', VInt 1)] = None \<longrightarrow>
                        e = PyExc TypeError_t
                              (ExpectedArgument ''y'' (VType int_t) (type_of (VStr ''a'')))"
    by blast
  with k have "e = PyExc TypeError_t (ExpectedArgument ''y'' (VType int_t) str_t)" by simp
  with e1 have w: "\<forall>b. wrapper (optional_typecheck (dflt\<lparr>f_body := b\<rparr>) store0) [VInt 1] [] store0
          = (Inl (PyExc TypeError_t (ExpectedArgument ''y'' (VType int_t) str_t)), store0)"
    by simp
  have c: "call dflt [VInt 1] [] store0 = (Inr (VInt 1), store0\<lparr>globals := globals store0 + 1\<rparr>)"
    by (rule dflt_call)
  from h1 h2 h3 h4 h5 h6 g k w c show ?thesis
    by (intro conjI)
qed

end
